theory Spec2Isabelle
  imports Complex_Main
begin

section \<open>Overview\<close>

text \<open>
  A shallow embedding of the momentum-trading engine and of the properties its
  specification states. The functions modelled are, with their source modules:
  the account manager (\<^verbatim>\<open>account-manager\<close>, the variant keyed by account name), the
  trigger ladder (\<^verbatim>\<open>calculate-triggers\<close>), the candle queue (\<^verbatim>\<open>deque\<close>), the
  movement detector (\<^verbatim>\<open>process-candles\<close>), the trade manager
  (\<^verbatim>\<open>trade-manager\<close>, the variant with per-account credentials), the entry engine
  (\<^verbatim>\<open>movement-threshold\<close>, the variant that sizes an entry by \<^verbatim>\<open>usdt_amount\<close>)
  and the trigger runner (\<^verbatim>\<open>check-triggers\<close>).

  Every function takes the state it reads and returns the state it leaves; an
  exception is the \<open>Inl\<close> of a sum, returned together with the state at the moment
  it is thrown. An \<^verbatim>\<open>await\<close> is a plain call: no other handler runs between a
  request and its continuation. Logging and the write of the JSON state file do not
  touch the state the properties are about and are left out.

  Names follow the source. Where a name is taken in Isabelle, or two interfaces share
  a field name, a short prefix is added: \<open>symb\<close> for a variable \<^verbatim>\<open>symbol\<close>,
  \<open>c_open\<close> ... \<open>c_volume\<close> for the prices of a candle, \<open>u_\<close> for the keys of a
  patch, \<open>o_\<close> for order parameters, \<open>si_\<close>, \<open>oo_\<close> and \<open>up_\<close> for what the exchange
  reports.
\<close>

section \<open>Numbers\<close>

text \<open>
  The engine computes with JavaScript numbers. They are modelled as exact reals: the
  formulas of the source are kept as written, and the binary rounding error of IEEE
  doubles is not part of the model. What the source rounds explicitly, with
  \<^verbatim>\<open>parseFloat(x.toFixed(d))\<close>, is rounded here too: \<^verbatim>\<open>toFixed\<close> keeps
  \<open>d\<close> decimals and resolves a tie away from zero (the sign is split off first and
  the larger candidate is chosen for the magnitude).
\<close>

definition toFixed :: "real \<Rightarrow> nat \<Rightarrow> real" where
  "toFixed x d =
     (if x < 0 then - (of_int \<lfloor>(- x) * 10 ^ d + 1 / 2\<rfloor> / 10 ^ d)
      else of_int \<lfloor>x * 10 ^ d + 1 / 2\<rfloor> / 10 ^ d)"

text \<open>
  Truthiness of a value of type \<^verbatim>\<open>number | null\<close>: \<^verbatim>\<open>null\<close> and \<open>0\<close> are falsy.
  \<open>truthy v\<close> is the number when it is truthy. \<open>or_else v d\<close> is \<^verbatim>\<open>v || d\<close>.
\<close>

definition truthy :: "real option \<Rightarrow> real option" where
  "truthy v = (case v of None \<Rightarrow> None | Some x \<Rightarrow> if x = 0 then None else Some x)"

definition or_else :: "real option \<Rightarrow> real \<Rightarrow> real" where
  "or_else v d = (case truthy v of None \<Rightarrow> d | Some x \<Rightarrow> x)"

section \<open>Data model (interfaces)\<close>

datatype trigger_side = Long | Short

record position =
  status :: bool
  entry_price :: "real option"
  triggers :: "real list"
  stop_prices :: "real list"
  trigger_side :: "trigger_side option"
  lock_close_price :: "real option"
  movement_threshold :: "real option"
  is_placing_stop_loss_running :: bool

text \<open>
  A value of \<^verbatim>\<open>Partial<Position>\<close>: for each field, \<open>None\<close> when the key is absent
  from the patch and \<open>Some v\<close> when the patch carries the value \<open>v\<close> (which may itself
  be \<^verbatim>\<open>null\<close> for the nullable fields).
\<close>

record updates =
  u_status :: "bool option"
  u_entry_price :: "real option option"
  u_triggers :: "real list option"
  u_stop_prices :: "real list option"
  u_trigger_side :: "trigger_side option option"
  u_lock_close_price :: "real option option"
  u_movement_threshold :: "real option option"
  u_is_placing_stop_loss_running :: "bool option"

definition no_updates :: updates where
  "no_updates = \<lparr>u_status = None, u_entry_price = None, u_triggers = None,
     u_stop_prices = None, u_trigger_side = None, u_lock_close_price = None,
     u_movement_threshold = None, u_is_placing_stop_loss_running = None\<rparr>"

record token_data =
  positions :: "string \<rightharpoonup> position"

type_synonym account_data = "string \<rightharpoonup> token_data"

record pair =
  symbol :: string
  threshold :: real
  fees_exemption_percentage :: real
  num_previous_candles :: int
  usdt_amount :: real

datatype error =
    AccountDoesNotExist string
  | SymbolDoesNotExist string string
  | NoPositionData string string
  | NoCandlesFound string
  | NoConfigurationFound string
  | PrecisionNotFound string
  | TypeError
  | Transport

section \<open>AccountManager\<close>

text \<open>
  The object spread \<^verbatim>\<open>{...position, ...updates}\<close>: a key of the patch wins, every
  other field keeps the value of the stored position.
\<close>

definition spread :: "position \<Rightarrow> updates \<Rightarrow> position" where
  "spread p u =
     \<lparr>status = (case u_status u of None \<Rightarrow> status p | Some v \<Rightarrow> v),
      entry_price = (case u_entry_price u of None \<Rightarrow> entry_price p | Some v \<Rightarrow> v),
      triggers = (case u_triggers u of None \<Rightarrow> triggers p | Some v \<Rightarrow> v),
      stop_prices = (case u_stop_prices u of None \<Rightarrow> stop_prices p | Some v \<Rightarrow> v),
      trigger_side = (case u_trigger_side u of None \<Rightarrow> trigger_side p | Some v \<Rightarrow> v),
      lock_close_price =
        (case u_lock_close_price u of None \<Rightarrow> lock_close_price p | Some v \<Rightarrow> v),
      movement_threshold =
        (case u_movement_threshold u of None \<Rightarrow> movement_threshold p | Some v \<Rightarrow> v),
      is_placing_stop_loss_running =
        (case u_is_placing_stop_loss_running u of
           None \<Rightarrow> is_placing_stop_loss_running p | Some v \<Rightarrow> v)\<rparr>"

definition getAccountData :: "account_data \<Rightarrow> string \<Rightarrow> token_data option" where
  "getAccountData ad accountName = ad accountName"

definition getPositionData :: "account_data \<Rightarrow> string \<Rightarrow> string \<Rightarrow> position option" where
  "getPositionData ad accountName symb =
     (case getAccountData ad accountName of
        None \<Rightarrow> None
      | Some account \<Rightarrow> positions account symb)"

text \<open>
  \<^verbatim>\<open>updatePosition\<close> throws when the account or the symbol is unknown and otherwise
  stores the merged position. The result pairs the outcome (\<open>Inl\<close> the exception) with
  the account data the manager holds afterwards. The asynchronous write of the JSON
  file that follows a successful update does not touch the in-memory data and is not
  modelled.
\<close>

definition updatePosition ::
  "string \<Rightarrow> string \<Rightarrow> updates \<Rightarrow> account_data \<Rightarrow> (error + unit) \<times> account_data" where
  "updatePosition accountName symb upd ad =
     (case ad accountName of
        None \<Rightarrow> (Inl (AccountDoesNotExist accountName), ad)
      | Some td \<Rightarrow>
          (case positions td symb of
             None \<Rightarrow> (Inl (SymbolDoesNotExist symb accountName), ad)
           | Some p \<Rightarrow>
               (Inr (),
                ad(accountName \<mapsto> td\<lparr>positions := (positions td)(symb \<mapsto> spread p upd)\<rparr>))))"

definition idle_position :: position where
  "idle_position =
     \<lparr>status = False, entry_price = None, triggers = [], stop_prices = [],
      trigger_side = None, lock_close_price = None, movement_threshold = None,
      is_placing_stop_loss_running = False\<rparr>"

text \<open>
  \<^verbatim>\<open>initializeAccountData\<close> creates the account when it is missing and an idle
  position for every configured pair that has none; stored positions are kept.
\<close>

fun init_pairs :: "pair list \<Rightarrow> (string \<rightharpoonup> position) \<Rightarrow> (string \<rightharpoonup> position)" where
  "init_pairs [] ps = ps"
| "init_pairs (pr # prs) ps =
     init_pairs prs
       (case ps (symbol pr) of None \<Rightarrow> ps(symbol pr \<mapsto> idle_position) | Some _ \<Rightarrow> ps)"

definition initializeAccountData :: "string \<Rightarrow> pair list \<Rightarrow> account_data \<Rightarrow> account_data" where
  "initializeAccountData accountName pairs ad =
     (let td = (case ad accountName of None \<Rightarrow> \<lparr>positions = Map.empty\<rparr> | Some t \<Rightarrow> t)
      in ad(accountName \<mapsto> td\<lparr>positions := init_pairs pairs (positions td)\<rparr>))"

section \<open>Trigger ladder (calculateTriggers)\<close>

text \<open>
  The loop \<^verbatim>\<open>for (let i = 1; i <= count; i++)\<close>: each round computes the unrounded
  trigger and stop, carries the unrounded stop into the next round and pushes the two
  values rounded to 8 decimals.
\<close>

function ladder_loop ::
  "real \<Rightarrow> trigger_side \<Rightarrow> real \<Rightarrow> real \<Rightarrow> int \<Rightarrow> int \<Rightarrow> real \<Rightarrow> real list \<Rightarrow> real list
     \<Rightarrow> real list \<times> real list" where
  "ladder_loop entryPrice direction movementThreshold feesExemptionPercentage count i
       currentStopPrice trs sps =
     (if i \<le> count then
        (let triggerPrice =
               (if direction = Long
                then entryPrice * (1 + (of_int i * movementThreshold) / 100)
                else entryPrice * (1 - (of_int i * movementThreshold) / 100));
             stopPrice =
               (if direction = Long
                then currentStopPrice *
                       (1 + movementThreshold / 100 + feesExemptionPercentage / 100)
                else currentStopPrice *
                       (1 - movementThreshold / 100 - feesExemptionPercentage / 100))
         in ladder_loop entryPrice direction movementThreshold feesExemptionPercentage count
              (i + 1) stopPrice (trs @ [toFixed triggerPrice 8]) (sps @ [toFixed stopPrice 8]))
      else (trs, sps))"
  by pat_completeness auto
termination
  by (relation "measure (\<lambda>(E, d, m, f, count, i, cur, trs, sps). nat (count + 1 - i))") auto

declare ladder_loop.simps [simp del]

definition calculateTriggers ::
  "(string \<rightharpoonup> pair) \<Rightarrow> account_data \<Rightarrow> real \<Rightarrow> trigger_side \<Rightarrow> string \<Rightarrow> string \<Rightarrow> int
     \<Rightarrow> (error + real list \<times> real list) \<times> account_data" where
  "calculateTriggers pairSettings ad entryPrice direction accountName symb count =
     (case getPositionData ad accountName symb of
        None \<Rightarrow> (Inl (NoPositionData accountName symb), ad)
      | Some positionData \<Rightarrow>
          (case truthy (movement_threshold positionData) of
             None \<Rightarrow> (Inl (NoPositionData accountName symb), ad)
           | Some movementThreshold \<Rightarrow>
               (case pairSettings symb of
                  None \<Rightarrow> (Inl TypeError, ad)
                | Some ps \<Rightarrow>
                    (let feesExemptionPercentage = fees_exemption_percentage ps;
                         initialStopPrice =
                           (if direction = Long
                            then entryPrice *
                                   (1 - movementThreshold / 100 - feesExemptionPercentage / 100)
                            else entryPrice *
                                   (1 + movementThreshold / 100 + feesExemptionPercentage / 100));
                         (trs, sps) =
                           ladder_loop entryPrice direction movementThreshold
                             feesExemptionPercentage count 1 initialStopPrice [] []
                     in (case updatePosition accountName symb
                                (no_updates\<lparr>u_triggers := Some trs, u_stop_prices := Some sps,
                                   u_trigger_side := Some (Some direction)\<rparr>) ad of
                           (Inl e, ad') \<Rightarrow> (Inl e, ad')
                         | (Inr _, ad') \<Rightarrow> (Inr (trs, sps), ad'))))))"



section \<open>Candle history (deque)\<close>

text \<open>
  Of a candle the engine reads the two timestamps and the prices; the remaining volume
  statistics of the interface are never read and are left out.
\<close>

record candle =
  openTime :: int
  c_open :: real
  c_high :: real
  c_low :: real
  c_close :: real
  c_volume :: real
  closeTime :: int

text \<open>
  \<^verbatim>\<open>addCandleToQueue\<close>: \<^verbatim>\<open>shift\<close> when the queue is full (a no-op on an empty
  array), then \<^verbatim>\<open>push\<close>.
\<close>

definition addCandleToQueue :: "candle list \<Rightarrow> candle \<Rightarrow> nat \<Rightarrow> candle list" where
  "addCandleToQueue candles cndl maxLength =
     (if length candles \<ge> maxLength then tl candles else candles) @ [cndl]"

definition capacity :: nat where
  "capacity = 20"

definition chronological :: "candle list \<Rightarrow> bool" where
  "chronological cs = sorted_wrt (\<lambda>a b. openTime a < openTime b) cs"

text \<open>
  The contract of \<^verbatim>\<open>append\<close> as the specification words it: append when the candle
  is newer than the last entry, otherwise replace the last entry; evict the oldest
  entry when the history is full.
\<close>

definition spec_append :: "candle list \<Rightarrow> candle \<Rightarrow> candle list" where
  "spec_append cs cndl =
     (if cs = [] then [cndl]
      else if openTime cndl > openTime (last cs)
      then (if length cs = capacity then tl cs else cs) @ [cndl]
      else butlast cs @ [cndl])"

section \<open>Movement detector (processCandles)\<close>

definition diff_of_row :: "candle \<Rightarrow> real" where
  "diff_of_row row = \<bar>(c_close row - c_open row) / c_open row\<bar> * 100"

definition mean :: "real list \<Rightarrow> real" where
  "mean xs = sum_list xs / of_nat (length xs)"

text \<open>
  \<^verbatim>\<open>xs.slice(start)\<close>: a negative start counts from the end, and both ends are
  clamped to the array.
\<close>

definition slice_from :: "int \<Rightarrow> 'a list \<Rightarrow> 'a list" where
  "slice_from start xs =
     (let n = int (length xs);
          k = (if start < 0 then max (n + start) 0 else min start n)
      in drop (nat k) xs)"

text \<open>
  The loop over \<^verbatim>\<open>config.tokens\<close> that locks the close price: an exception of
  \<^verbatim>\<open>updatePosition\<close> ends it, the tokens before it stay updated.
\<close>

fun lock_tokens ::
  "string list \<Rightarrow> string \<Rightarrow> real \<Rightarrow> real \<Rightarrow> account_data \<Rightarrow> (error + unit) \<times> account_data" where
  "lock_tokens [] symb cl dynamicThreshold ad = (Inr (), ad)"
| "lock_tokens (token # tokens) symb cl dynamicThreshold ad =
     (case updatePosition token symb
             (no_updates\<lparr>u_lock_close_price := Some (Some cl),
                u_movement_threshold := Some (Some (dynamicThreshold / 2))\<rparr>) ad of
        (Inl e, ad') \<Rightarrow> (Inl e, ad')
      | (Inr _, ad') \<Rightarrow> lock_tokens tokens symb cl dynamicThreshold ad')"

definition current_diff :: "candle \<Rightarrow> real" where
  "current_diff currentCandle =
     \<bar>c_close currentCandle - c_open currentCandle\<bar> / c_open currentCandle * 100"

definition average_diff :: "candle list \<Rightarrow> real" where
  "average_diff candles = mean (map diff_of_row candles)"

definition dynamic_threshold :: "pair \<Rightarrow> candle list \<Rightarrow> real" where
  "dynamic_threshold pairConfig candles = threshold pairConfig * average_diff candles"

definition past_diffs_sum :: "pair \<Rightarrow> candle list \<Rightarrow> real" where
  "past_diffs_sum pairConfig candles =
     sum_list (slice_from (- num_previous_candles pairConfig) (map diff_of_row candles))"

text \<open>
  \<^verbatim>\<open>processCandles\<close> reads the history of the symbol from \<^verbatim>\<open>symbolCandles\<close> and
  the pair from \<^verbatim>\<open>config.pairs\<close>; it returns whether the criteria were met.
\<close>

definition processCandles ::
  "pair list \<Rightarrow> string list \<Rightarrow> (string \<rightharpoonup> candle list) \<Rightarrow> string \<Rightarrow> candle \<Rightarrow> account_data
     \<Rightarrow> (error + bool) \<times> account_data" where
  "processCandles pairs tokens symbolCandles symb currentCandle ad =
     (case symbolCandles symb of
        None \<Rightarrow> (Inl (NoCandlesFound symb), ad)
      | Some candles \<Rightarrow>
          if candles = [] then (Inl (NoCandlesFound symb), ad)
          else
            (case find (\<lambda>pr. symbol pr = symb) pairs of
               None \<Rightarrow> (Inl (NoConfigurationFound symb), ad)
             | Some pairConfig \<Rightarrow>
                 (let dynamicThreshold = dynamic_threshold pairConfig candles;
                      currentDiff = current_diff currentCandle;
                      pastDiffsSum = past_diffs_sum pairConfig candles
                  in if currentDiff > dynamicThreshold \<and> currentDiff > pastDiffsSum
                     then (case lock_tokens tokens symb (c_close currentCandle)
                                  dynamicThreshold ad of
                             (Inl e, ad') \<Rightarrow> (Inl e, ad')
                           | (Inr _, ad') \<Rightarrow> (Inr True, ad'))
                     else (Inr False, ad))))"

section \<open>TradeManager\<close>

subsection \<open>The exchange\<close>

datatype order_side = BUY | SELL

record order_params =
  o_symbol :: string
  o_side :: order_side
  o_type :: string
  o_quantity :: "real option"
  o_stopPrice :: "real option"
  o_positionSide :: string
  o_workingType :: "string option"
  o_closePosition :: "string option"

record symbol_info =
  si_symbol :: string
  pricePrecision :: nat
  quantityPrecision :: nat

record exchange_position =
  positionAmt :: real
  positionSide :: string

record open_order =
  oo_type :: string
  oo_stopPrice :: real

datatype order_reply = NewOrderResult nat | NewOrderError int

text \<open>
  The REST client is a port: its answers are parameters of the model. A \<open>client\<close>
  holds the answer to every request at one moment, \<open>Inl\<close> when the request fails; an
  \<open>exchange\<close> gives the client for every moment, the moment being the number of
  events recorded so far, so that the same request may fail now and succeed later.
\<close>

record client =
  getExchangeInfo :: "error + symbol_info list"
  getPositionsV3 :: "string \<Rightarrow> error + exchange_position list"
  getAllOpenOrders :: "string \<Rightarrow> error + open_order list"
  submitMultipleOrders :: "order_params \<Rightarrow> order_params \<Rightarrow> error + order_reply \<times> order_reply"
  submitNewOrder :: "order_params \<Rightarrow> error + order_reply"
  cancelAllOpenOrders :: "string \<Rightarrow> error + unit"

type_synonym exchange = "nat \<Rightarrow> client"

text \<open>
  What the trade manager does is recorded in order: the calls of its three
  order-placing methods and the requests it sends to the exchange.
\<close>

datatype event =
    PlacePositionWithStopLoss string order_side real real
  | PlaceTrailStopLoss string order_side real
  | ClosePosition string
  | GetExchangeInfo
  | GetPositionsV3 string
  | GetAllOpenOrders string
  | SubmitMultipleOrders order_params order_params
  | SubmitNewOrder order_params
  | CancelAllOpenOrders string

record trade_manager =
  exchangeInfo :: "symbol_info list option"
  positionLocks :: "string \<Rightarrow> bool"
  trace :: "event list"

definition record_event :: "event \<Rightarrow> trade_manager \<Rightarrow> trade_manager" where
  "record_event ev tm = tm\<lparr>trace := trace tm @ [ev]\<rparr>"

definition now :: "exchange \<Rightarrow> trade_manager \<Rightarrow> client" where
  "now ex tm = ex (length (trace tm))"

datatype order_failure =
    EntryInProgress
  | PositionAlreadyExists
  | StopLossPlacementFailed
  | Thrown error

record order_result =
  success :: bool
  failure :: "order_failure option"

definition toUpperCase :: "string \<Rightarrow> string" where
  "toUpperCase s =
     map (\<lambda>c. let n = (of_char c :: nat)
               in if 97 \<le> n \<and> n \<le> 122 then char_of (n - 32) else c) s"

subsection \<open>Precision and rounding\<close>

definition roundToPrecision :: "real \<Rightarrow> nat \<Rightarrow> real" where
  "roundToPrecision v precision = toFixed v precision"

definition getSymbolPrecision ::
  "exchange \<Rightarrow> string \<Rightarrow> trade_manager \<Rightarrow> (error + nat \<times> nat) \<times> trade_manager" where
  "getSymbolPrecision ex symb tm =
     (case (case exchangeInfo tm of
              Some info \<Rightarrow> (Inr info, tm)
            | None \<Rightarrow>
                (case getExchangeInfo (now ex tm) of
                   Inl e \<Rightarrow> (Inl e, record_event GetExchangeInfo tm)
                 | Inr info \<Rightarrow>
                     (Inr info, (record_event GetExchangeInfo tm)\<lparr>exchangeInfo := Some info\<rparr>))) of
        (Inl e, tm') \<Rightarrow> (Inl e, tm')
      | (Inr info, tm') \<Rightarrow>
          (case find (\<lambda>s. si_symbol s = toUpperCase symb) info of
             Some symbolInfo \<Rightarrow>
               (Inr (pricePrecision symbolInfo, quantityPrecision symbolInfo), tm')
           | None \<Rightarrow> (Inl (PrecisionNotFound symb), tm')))"

definition calculateQuantity ::
  "exchange \<Rightarrow> string \<Rightarrow> real \<Rightarrow> real \<Rightarrow> trade_manager \<Rightarrow> (error + real) \<times> trade_manager" where
  "calculateQuantity ex symb currentPrice usdtAmount tm =
     (case getSymbolPrecision ex symb tm of
        (Inl e, tm') \<Rightarrow> (Inl e, tm')
      | (Inr (pp, qp), tm') \<Rightarrow>
          (let rawQuantity = usdtAmount / currentPrice
           in (Inr (roundToPrecision rawQuantity qp), tm')))"

subsection \<open>Orders\<close>

definition inExistingPosition ::
  "exchange \<Rightarrow> string \<Rightarrow> trade_manager \<Rightarrow> bool \<times> trade_manager" where
  "inExistingPosition ex symb tm =
     (case getPositionsV3 (now ex tm) symb of
        Inl e \<Rightarrow> (True, record_event (GetPositionsV3 symb) tm)
      | Inr position \<Rightarrow>
          (let tm1 = record_event (GetPositionsV3 symb) tm
           in (case getAllOpenOrders (now ex tm1) symb of
                 Inl e \<Rightarrow> (True, record_event (GetAllOpenOrders symb) tm1)
               | Inr openOrders \<Rightarrow>
                   (list_ex (\<lambda>pos. positionAmt pos \<noteq> 0) position \<or>
                    list_ex (\<lambda>order. oo_type order = ''MARKET'') openOrders,
                    record_event (GetAllOpenOrders symb) tm1))))"

definition closePosition ::
  "exchange \<Rightarrow> string \<Rightarrow> trade_manager \<Rightarrow> (error + unit) \<times> trade_manager" where
  "closePosition ex symb tm =
     (let tm0 = record_event (ClosePosition symb) tm;
          tm1 = record_event (GetPositionsV3 symb) tm0
      in (case getPositionsV3 (now ex tm0) symb of
            Inl e \<Rightarrow> (Inl e, tm1)
          | Inr position \<Rightarrow>
              (case find (\<lambda>pos. positionAmt pos \<noteq> 0) position of
                 None \<Rightarrow> (Inr (), tm1)
               | Some pos \<Rightarrow>
                   (case getSymbolPrecision ex symb tm1 of
                      (Inl e, tm2) \<Rightarrow> (Inl e, tm2)
                    | (Inr (pp, qp), tm2) \<Rightarrow>
                        (let roundedQty = roundToPrecision \<bar>positionAmt pos\<bar> qp;
                             closePayload =
                               \<lparr>o_symbol = symb,
                                o_side = (if positionAmt pos > 0 then SELL else BUY),
                                o_type = ''MARKET'', o_quantity = Some roundedQty,
                                o_stopPrice = None, o_positionSide = positionSide pos,
                                o_workingType = None, o_closePosition = None\<rparr>;
                             tm3 = record_event (SubmitNewOrder closePayload) tm2
                         in (case submitNewOrder (now ex tm2) closePayload of
                               Inl e \<Rightarrow> (Inl e, tm3)
                             | Inr _ \<Rightarrow> (Inr (), tm3)))))))"

definition isOrderError :: "order_reply \<Rightarrow> bool" where
  "isOrderError order = (case order of NewOrderError _ \<Rightarrow> True | NewOrderResult _ \<Rightarrow> False)"

text \<open>
  The body of the \<^verbatim>\<open>try\<close> block of \<^verbatim>\<open>placePositionWithStopLoss\<close>. The price the
  quantity is computed from is recovered from the stop price with the fixed factor
  \<open>1 \<mp> 0.01\<close>.
\<close>

definition entry_body ::
  "exchange \<Rightarrow> string \<Rightarrow> order_side \<Rightarrow> real \<Rightarrow> real \<Rightarrow> trade_manager
     \<Rightarrow> (error + order_result) \<times> trade_manager" where
  "entry_body ex symb side usdtAmount stopPrice tm =
     (let currentPrice = stopPrice / (1 + (if side = BUY then - 0.01 else 0.01))
      in (case calculateQuantity ex symb currentPrice usdtAmount tm of
            (Inl e, tm1) \<Rightarrow> (Inl e, tm1)
          | (Inr quantity, tm1) \<Rightarrow>
              (case getSymbolPrecision ex symb tm1 of
                 (Inl e, tm2) \<Rightarrow> (Inl e, tm2)
               | (Inr (pp, qp), tm2) \<Rightarrow>
                   (let roundedQty = roundToPrecision quantity qp;
                        roundedStopPrice = roundToPrecision stopPrice pp
                    in (case inExistingPosition ex symb tm2 of
                          (True, tm3) \<Rightarrow>
                            (Inr \<lparr>success = False, failure = Some PositionAlreadyExists\<rparr>, tm3)
                        | (False, tm3) \<Rightarrow>
                            (let orderParams =
                                   \<lparr>o_symbol = toUpperCase symb, o_side = side,
                                    o_type = ''MARKET'', o_quantity = Some roundedQty,
                                    o_stopPrice = None,
                                    o_positionSide = (if side = BUY then ''LONG'' else ''SHORT''),
                                    o_workingType = None, o_closePosition = None\<rparr>;
                                 stopLossParams =
                                   \<lparr>o_symbol = toUpperCase symb,
                                    o_side = (if side = BUY then SELL else BUY),
                                    o_type = ''STOP_MARKET'', o_quantity = None,
                                    o_stopPrice = Some roundedStopPrice,
                                    o_positionSide = (if side = BUY then ''LONG'' else ''SHORT''),
                                    o_workingType = Some ''MARK_PRICE'',
                                    o_closePosition = Some ''true''\<rparr>;
                                 tm4 = record_event (SubmitMultipleOrders orderParams stopLossParams) tm3
                             in (case submitMultipleOrders (now ex tm3) orderParams stopLossParams of
                                   Inl e \<Rightarrow> (Inl e, tm4)
                                 | Inr (positionOrder, stopLossOrder) \<Rightarrow>
                                     if isOrderError stopLossOrder
                                     then (case closePosition ex symb tm4 of
                                             (Inl e, tm5) \<Rightarrow> (Inl e, tm5)
                                           | (Inr _, tm5) \<Rightarrow>
                                               (Inr \<lparr>success = False,
                                                     failure = Some StopLossPlacementFailed\<rparr>, tm5))
                                     else (Inr \<lparr>success = True, failure = None\<rparr>, tm4))))))))"

text \<open>
  \<^verbatim>\<open>placePositionWithStopLoss\<close>: skip when the entry lock of the symbol is held;
  otherwise take the lock, run the body, on an exception close the position and
  report the failure (an exception of that \<^verbatim>\<open>closePosition\<close> escapes), and release
  the lock in every case.
\<close>

definition placePositionWithStopLoss ::
  "exchange \<Rightarrow> string \<Rightarrow> order_side \<Rightarrow> real \<Rightarrow> real \<Rightarrow> trade_manager
     \<Rightarrow> (error + order_result) \<times> trade_manager" where
  "placePositionWithStopLoss ex symb side usdtAmount stopPrice tm =
     (let tm0 = record_event (PlacePositionWithStopLoss symb side usdtAmount stopPrice) tm
      in if positionLocks tm0 symb
         then (Inr \<lparr>success = False, failure = Some EntryInProgress\<rparr>, tm0)
         else
           (let (r, tm2) =
                  (case entry_body ex symb side usdtAmount stopPrice
                          (tm0\<lparr>positionLocks := (positionLocks tm0)(symb := True)\<rparr>) of
                     (Inr res, tm1) \<Rightarrow> (Inr res, tm1)
                   | (Inl e, tm1) \<Rightarrow>
                       (case closePosition ex symb tm1 of
                          (Inl e', tm2) \<Rightarrow> (Inl e', tm2)
                        | (Inr _, tm2) \<Rightarrow>
                            (Inr \<lparr>success = False, failure = Some (Thrown e)\<rparr>, tm2)))
            in (r, tm2\<lparr>positionLocks := (positionLocks tm2)(symb := False)\<rparr>)))"

definition cancelAllOrder ::
  "exchange \<Rightarrow> string \<Rightarrow> trade_manager \<Rightarrow> (error + unit) \<times> trade_manager" where
  "cancelAllOrder ex symb tm =
     (let tm1 = record_event (CancelAllOpenOrders (toUpperCase symb)) tm
      in (case cancelAllOpenOrders (now ex tm) (toUpperCase symb) of
            Inl e \<Rightarrow> (Inl e, tm1)
          | Inr _ \<Rightarrow> (Inr (), tm1)))"

text \<open>
  \<^verbatim>\<open>placeTrailStopLoss\<close> answers \<^verbatim>\<open>true\<close> when a stop order at that price exists
  already or the new one was accepted; every failure is logged and thrown again.
\<close>

definition placeTrailStopLoss ::
  "exchange \<Rightarrow> string \<Rightarrow> order_side \<Rightarrow> real \<Rightarrow> trade_manager \<Rightarrow> (error + bool) \<times> trade_manager" where
  "placeTrailStopLoss ex symb forSide stopPrice tm =
     (let tm0 = record_event (PlaceTrailStopLoss symb forSide stopPrice) tm;
          tm1 = record_event (GetAllOpenOrders symb) tm0
      in (case getAllOpenOrders (now ex tm0) symb of
            Inl e \<Rightarrow> (Inl e, tm1)
          | Inr openOrders \<Rightarrow>
              if list_ex (\<lambda>order. oo_type order = ''STOP_MARKET'' \<and> oo_stopPrice order = stopPrice)
                   openOrders
              then (Inr True, tm1)
              else
                (case getSymbolPrecision ex symb tm1 of
                   (Inl e, tm2) \<Rightarrow> (Inl e, tm2)
                 | (Inr (pp, qp), tm2) \<Rightarrow>
                     (let roundedStopPrice = roundToPrecision stopPrice pp
                      in (case cancelAllOrder ex symb tm2 of
                            (Inl e, tm3) \<Rightarrow> (Inl e, tm3)
                          | (Inr _, tm3) \<Rightarrow>
                              (let stopLossParams =
                                     \<lparr>o_symbol = toUpperCase symb,
                                      o_side = (if forSide = BUY then SELL else BUY),
                                      o_type = ''STOP_MARKET'', o_quantity = None,
                                      o_stopPrice = Some roundedStopPrice,
                                      o_positionSide =
                                        (if forSide = BUY then ''LONG'' else ''SHORT''),
                                      o_workingType = Some ''MARK_PRICE'',
                                      o_closePosition = Some ''true''\<rparr>;
                                   tm4 = record_event (SubmitNewOrder stopLossParams) tm3
                               in (case submitNewOrder (now ex tm3) stopLossParams of
                                     Inl e \<Rightarrow> (Inl e, tm4)
                                   | Inr _ \<Rightarrow> (Inr True, tm4))))))))"

subsection \<open>User stream\<close>

record updated_position =
  up_symbol :: string
  positionAmount :: real
  up_entryPrice :: real

definition cleared :: updates where
  "cleared =
     no_updates\<lparr>u_status := Some False, u_entry_price := Some None,
       u_lock_close_price := Some None, u_movement_threshold := Some None,
       u_triggers := Some [], u_stop_prices := Some [], u_trigger_side := Some None\<rparr>"

fun handleAccountUpdate ::
  "string \<Rightarrow> updated_position list \<Rightarrow> account_data \<Rightarrow> (error + unit) \<times> account_data" where
  "handleAccountUpdate accountName [] ad = (Inr (), ad)"
| "handleAccountUpdate accountName (pos # updatedPositions) ad =
     (case (if positionAmount pos = 0
            then updatePosition accountName (up_symbol pos) cleared ad
            else updatePosition accountName (up_symbol pos)
                   (no_updates\<lparr>u_status := Some True,
                      u_entry_price := Some (Some (up_entryPrice pos))\<rparr>) ad) of
        (Inl e, ad') \<Rightarrow> (Inl e, ad')
      | (Inr _, ad') \<Rightarrow> handleAccountUpdate accountName updatedPositions ad')"

section \<open>Entry engine (checkMovementThreshold)\<close>

text \<open>
  What follows a successful entry: the entry price is the one stored on the position,
  or the tick price when none is stored, and the ladder is computed with the default
  count of 20. An exception of \<^verbatim>\<open>calculateTriggers\<close> is caught and logged.
\<close>

definition after_entry ::
  "(string \<rightharpoonup> pair) \<Rightarrow> string \<Rightarrow> string \<Rightarrow> real \<Rightarrow> trigger_side \<Rightarrow> order_result \<Rightarrow> account_data
     \<Rightarrow> account_data" where
  "after_entry pairSettings accountName symb currentPrice direction response ad =
     (if success response then
        (let entryPrice =
               or_else (case getPositionData ad accountName symb of
                          None \<Rightarrow> None
                        | Some p \<Rightarrow> entry_price p) currentPrice
         in snd (calculateTriggers pairSettings ad entryPrice direction accountName symb 20))
      else ad)"

definition checkMovementThreshold ::
  "exchange \<Rightarrow> (string \<rightharpoonup> pair) \<Rightarrow> string \<Rightarrow> string \<Rightarrow> real \<Rightarrow> account_data \<Rightarrow> trade_manager
     \<Rightarrow> (error + unit) \<times> account_data \<times> trade_manager" where
  "checkMovementThreshold ex pairSettings accountName symb currentPrice ad tm =
     (case getPositionData ad accountName symb of
        None \<Rightarrow> (Inr (), ad, tm)
      | Some positionData \<Rightarrow>
          (case truthy (lock_close_price positionData) of
             None \<Rightarrow> (Inr (), ad, tm)
           | Some lockClosePrice \<Rightarrow>
               if status positionData then (Inr (), ad, tm)
               else
                 (case truthy (movement_threshold positionData) of
                    None \<Rightarrow> (Inr (), ad, tm)
                  | Some movementThreshold \<Rightarrow>
                      (let upThreshold = lockClosePrice * (1 + movementThreshold / 100);
                           downThreshold = lockClosePrice * (1 - movementThreshold / 100)
                       in (case pairSettings symb of
                             None \<Rightarrow> (Inl TypeError, ad, tm)
                           | Some ps \<Rightarrow>
                               (let usdtAmount = usdt_amount ps
                                in if currentPrice \<ge> upThreshold then
                                     (case placePositionWithStopLoss ex symb BUY usdtAmount
                                             (currentPrice * (1 - movementThreshold / 100)) tm of
                                        (Inl e, tm') \<Rightarrow> (Inl e, ad, tm')
                                      | (Inr response, tm') \<Rightarrow>
                                          (Inr (),
                                           after_entry pairSettings accountName symb currentPrice
                                             Long response ad, tm'))
                                   else if currentPrice \<le> downThreshold then
                                     (case placePositionWithStopLoss ex symb SELL usdtAmount
                                             (currentPrice * (1 + movementThreshold / 100)) tm of
                                        (Inl e, tm') \<Rightarrow> (Inl e, ad, tm')
                                      | (Inr response, tm') \<Rightarrow>
                                          (Inr (),
                                           after_entry pairSettings accountName symb currentPrice
                                             Short response ad, tm'))
                                   else (Inr (), ad, tm)))))))"

section \<open>Trigger runner (checkTriggers)\<close>

text \<open>
  The retry loop \<^verbatim>\<open>for (retryCount = 0; retryCount < 3 && !placed; retryCount++)\<close>.
  The result is \<open>Inr True\<close> when the stop was placed and the ladder advanced,
  \<open>Inr False\<close> when the loop ran out with \<^verbatim>\<open>placed\<close> still false, and \<open>Inl\<close> when
  an exception left the loop.
\<close>

function trail_loop ::
  "exchange \<Rightarrow> string \<Rightarrow> string \<Rightarrow> order_side \<Rightarrow> real \<Rightarrow> real list \<Rightarrow> real list \<Rightarrow> nat
     \<Rightarrow> account_data \<Rightarrow> trade_manager \<Rightarrow> (error + bool) \<times> account_data \<times> trade_manager" where
  "trail_loop ex accountName symb side stopPrice trs sps retryCount ad tm =
     (if retryCount < 3 then
        (case placeTrailStopLoss ex symb side stopPrice tm of
           (Inl e, tm') \<Rightarrow> (Inl e, ad, tm')
         | (Inr placed, tm') \<Rightarrow>
             if placed then
               (case updatePosition accountName symb
                       (no_updates\<lparr>u_triggers := Some (drop 1 trs),
                          u_stop_prices := Some (drop 1 sps)\<rparr>) ad of
                  (Inl e, ad') \<Rightarrow> (Inl e, ad', tm')
                | (Inr _, ad') \<Rightarrow> (Inr True, ad', tm'))
             else trail_loop ex accountName symb side stopPrice trs sps (retryCount + 1) ad tm')
      else (Inr False, ad, tm))"
  by pat_completeness auto
termination
  by (relation "measure (\<lambda>(ex, a, s, side, sp, trs, sps, retryCount, ad, tm). 3 - retryCount)")
    auto

declare trail_loop.simps [simp del]

definition list_head :: "'a list \<Rightarrow> 'a option" where
  "list_head xs = (case xs of [] \<Rightarrow> None | x # _ \<Rightarrow> Some x)"

text \<open>
  \<^verbatim>\<open>checkTriggers\<close> catches every exception, so it returns the three states only: the
  account data, the trade manager and the module's \<^verbatim>\<open>processingTriggers\<close> locks.
\<close>

definition checkTriggers ::
  "exchange \<Rightarrow> string \<Rightarrow> string \<Rightarrow> real \<Rightarrow> account_data \<Rightarrow> trade_manager \<Rightarrow> (string \<Rightarrow> bool)
     \<Rightarrow> account_data \<times> trade_manager \<times> (string \<Rightarrow> bool)" where
  "checkTriggers ex accountName symb currentPrice ad tm processingTriggers =
     (case getPositionData ad accountName symb of
        None \<Rightarrow> (ad, tm, processingTriggers)
      | Some positionData \<Rightarrow>
          if \<not> status positionData \<or> triggers positionData = [] \<or>
             stop_prices positionData = []
          then (ad, tm, processingTriggers)
          else
            (let lockKey = accountName @ ''-'' @ symb
             in if processingTriggers lockKey then (ad, tm, processingTriggers)
                else
                  (case (triggers positionData, stop_prices positionData) of
                     (trigger0 # _, stopPrice # _) \<Rightarrow>
                       (let isLong = (trigger_side positionData = Some Long)
                        in if (if isLong then currentPrice \<ge> trigger0
                               else currentPrice \<le> trigger0)
                           then
                             (if (case getPositionData ad accountName symb of
                                    None \<Rightarrow> True
                                  | Some currentPositionData \<Rightarrow>
                                      \<not> status currentPositionData \<or>
                                      list_head (triggers currentPositionData) \<noteq> Some trigger0 \<or>
                                      list_head (stop_prices currentPositionData) \<noteq> Some stopPrice)
                              then (ad, tm, processingTriggers(lockKey := False))
                              else
                                (case trail_loop ex accountName symb
                                        (if isLong then BUY else SELL) stopPrice
                                        (triggers positionData) (stop_prices positionData) 0 ad tm of
                                   (Inr False, ad', tm') \<Rightarrow>
                                     (ad', snd (closePosition ex symb tm'),
                                      processingTriggers(lockKey := False))
                                 | (_, ad', tm') \<Rightarrow>
                                     (ad', tm', processingTriggers(lockKey := False))))
                           else (ad, tm, processingTriggers))
                   | _ \<Rightarrow> (ad, tm, processingTriggers))))"

section \<open>The state-mutating operations\<close>

definition ladder_aligned :: "position \<Rightarrow> bool" where
  "ladder_aligned p = (length (triggers p) = length (stop_prices p))"

definition P1 :: "account_data \<Rightarrow> bool" where
  "P1 ad = (\<forall>a s p. getPositionData ad a s = Some p \<longrightarrow> ladder_aligned p)"

text \<open>
  One step of the engine on the account data: any of the operations that write
  positions, with any arguments and whatever the exchange answers.
\<close>

inductive engine_step :: "account_data \<Rightarrow> account_data \<Rightarrow> bool" where
  initialize: "engine_step ad (initializeAccountData accountName pairs ad)"
| arm: "engine_step ad (snd (processCandles pairs tokens symbolCandles symb cndl ad))"
| ladder:
    "engine_step ad
       (snd (calculateTriggers pairSettings ad entryPrice direction accountName symb count))"
| enter:
    "engine_step ad
       (fst (snd (checkMovementThreshold ex pairSettings accountName symb currentPrice ad tm)))"
| advance:
    "engine_step ad (fst (checkTriggers ex accountName symb currentPrice ad tm processingTriggers))"
| reconcile: "engine_step ad (snd (handleAccountUpdate accountName updatedPositions ad))"

section \<open>Auxiliary definitions and concrete scenarios\<close>

text \<open>
  The factor by which the trailing stop moves from one rung to the next, and the
  trigger of rung \<open>i\<close> as the loop computes it.
\<close>

definition stop_factor :: "trigger_side \<Rightarrow> real \<Rightarrow> real \<Rightarrow> real" where
  "stop_factor d m f = (if d = Long then 1 + m / 100 + f / 100 else 1 - m / 100 - f / 100)"

definition trigger_at :: "real \<Rightarrow> trigger_side \<Rightarrow> real \<Rightarrow> int \<Rightarrow> real" where
  "trigger_at E d m i =
     (if d = Long then E * (1 + (of_int i * m) / 100) else E * (1 - (of_int i * m) / 100))"

text \<open>
  Scenario S1: the position of the trigger test, open long at 0.5 with a movement
  threshold of 1 percent and a fees exemption of 0.1 percent.
\<close>

definition s1_pair :: pair where
  "s1_pair = \<lparr>symbol = ''XRPUSDT'', threshold = 1, fees_exemption_percentage = 1 / 10,
     num_previous_candles = 5, usdt_amount = 100\<rparr>"


definition s1_position :: position where
  "s1_position = idle_position\<lparr>status := True, entry_price := Some (1 / 2),
     movement_threshold := Some 1, trigger_side := Some Long\<rparr>"

definition s1_accounts :: account_data where
  "s1_accounts = [''test_token'' \<mapsto> \<lparr>positions = [''XRPUSDT'' \<mapsto> s1_position]\<rparr>]"

definition s10_patch :: updates where
  "s10_patch = no_updates\<lparr>u_status := Some False, u_entry_price := Some None\<rparr>"

text \<open>A closed candle, used in the candle-history scenarios.\<close>

definition k1 :: candle where
  "k1 = \<lparr>openTime = 1000, c_open = 100, c_high = 101, c_low = 99, c_close = 100,
     c_volume = 5, closeTime = 1999\<rparr>"

text \<open>
  The anomaly rule as the specification words it, over a history \<open>H\<close> and the
  closed candle \<open>c\<close>.
\<close>

definition spec_diff :: "candle \<Rightarrow> real" where
  "spec_diff x = \<bar>c_close x - c_open x\<bar> / c_open x * 100"

definition spec_average_diff :: "candle list \<Rightarrow> real" where
  "spec_average_diff H = sum_list (map spec_diff H) / of_nat (length H)"

definition spec_dynamic_threshold :: "pair \<Rightarrow> candle list \<Rightarrow> real" where
  "spec_dynamic_threshold pr H = threshold pr * spec_average_diff H"

definition spec_past_sum :: "pair \<Rightarrow> candle list \<Rightarrow> real" where
  "spec_past_sum pr H =
     sum_list (drop (length H - nat (num_previous_candles pr)) (map spec_diff H))"

definition spec_trigger_condition :: "pair \<Rightarrow> candle list \<Rightarrow> candle \<Rightarrow> bool" where
  "spec_trigger_condition pr H c =
     (spec_diff c > spec_dynamic_threshold pr H \<and> spec_diff c > spec_past_sum pr H)"

text \<open>
  A detector scenario: two quiet candles in the history, a closed candle that moves
  one percent, account A with an open long in the middle of its ladder and account B
  idle.
\<close>

definition s5_history :: "candle list" where
  "s5_history =
     [k1\<lparr>c_close := 100.1\<rparr>, k1\<lparr>openTime := 2000, closeTime := 2999, c_close := 100.2\<rparr>]"

definition s5_candle :: candle where
  "s5_candle = k1\<lparr>openTime := 3000, closeTime := 3999, c_close := 101\<rparr>"

definition s5_candles :: "string \<rightharpoonup> candle list" where
  "s5_candles = [''XRPUSDT'' \<mapsto> s5_history]"

definition s2_open_position :: position where
  "s2_open_position =
     \<lparr>status = True, entry_price = Some 99, triggers = [99.99, 100.485],
      stop_prices = [98.5149, 99.017326], trigger_side = Some Long,
      lock_close_price = Some 98.5, movement_threshold = Some 0.5,
      is_placing_stop_loss_running = False\<rparr>"

definition s2_accounts :: account_data where
  "s2_accounts =
     [''A'' \<mapsto> \<lparr>positions = [''XRPUSDT'' \<mapsto> s2_open_position]\<rparr>,
      ''B'' \<mapsto> \<lparr>positions = [''XRPUSDT'' \<mapsto> idle_position]\<rparr>]"

text \<open>The patch the detector writes, and the criteria as the code computes them.\<close>

definition lock_patch :: "real \<Rightarrow> real \<Rightarrow> updates" where
  "lock_patch cl dyn =
     no_updates\<lparr>u_lock_close_price := Some (Some cl), u_movement_threshold := Some (Some (dyn / 2))\<rparr>"

definition code_trigger_condition :: "pair \<Rightarrow> candle list \<Rightarrow> candle \<Rightarrow> bool" where
  "code_trigger_condition pr H c =
     (current_diff c > dynamic_threshold pr H \<and> current_diff c > past_diffs_sum pr H)"

text \<open>The patch \<^verbatim>\<open>handleAccountUpdate\<close> writes for one reported position.\<close>

definition reconcile_patch :: "updated_position \<Rightarrow> updates" where
  "reconcile_patch pos =
     (if positionAmount pos = 0 then cleared
      else no_updates\<lparr>u_status := Some True, u_entry_price := Some (Some (up_entryPrice pos))\<rparr>)"

subsection \<open>Observing the trade manager\<close>

text \<open>
  The events a call added to the trace; among them the entry requests, the attempts
  to place a trailing stop and the requests to close a position. \<open>extends_within A\<close>
  says that a state continues the trace of another with events of \<open>A\<close> only.
\<close>

definition new_events :: "trade_manager \<Rightarrow> trade_manager \<Rightarrow> event list" where
  "new_events tm tm' = drop (length (trace tm)) (trace tm')"



definition is_trail_attempt :: "event \<Rightarrow> bool" where
  "is_trail_attempt ev = (case ev of PlaceTrailStopLoss _ _ _ \<Rightarrow> True | _ \<Rightarrow> False)"

definition is_close :: "event \<Rightarrow> bool" where
  "is_close ev = (case ev of ClosePosition _ \<Rightarrow> True | _ \<Rightarrow> False)"

definition client_request :: "event \<Rightarrow> bool" where
  "client_request ev =
     (case ev of
        GetExchangeInfo \<Rightarrow> True
      | GetPositionsV3 _ \<Rightarrow> True
      | GetAllOpenOrders _ \<Rightarrow> True
      | SubmitMultipleOrders _ _ \<Rightarrow> True
      | SubmitNewOrder _ \<Rightarrow> True
      | CancelAllOpenOrders _ \<Rightarrow> True
      | _ \<Rightarrow> False)"

definition client_requests :: "event set" where
  "client_requests = {ev. client_request ev}"

definition extends_within :: "event set \<Rightarrow> trade_manager \<Rightarrow> trade_manager \<Rightarrow> bool" where
  "extends_within A tm tm' = (\<exists>evs. trace tm' = trace tm @ evs \<and> set evs \<subseteq> A)"


definition trail_events :: "event set" where
  "trail_events = {ev. \<not> is_trail_attempt ev \<and> \<not> is_close ev}"

subsection \<open>Scenarios with an exchange\<close>

text \<open>
  An exchange that accepts every request, an idle trade manager, a pair with a
  notional of 1000 and a position armed at 100 with a movement threshold of 2 percent;
  the same position with a threshold of 0; the two orders the entry at 102 submits.
\<close>

definition s7_info :: "symbol_info list" where
  "s7_info = [\<lparr>si_symbol = ''XRPUSDT'', pricePrecision = 4, quantityPrecision = 1\<rparr>]"

definition s7_client :: client where
  "s7_client =
     \<lparr>getExchangeInfo = Inr s7_info,
      getPositionsV3 = (\<lambda>_. Inr []),
      getAllOpenOrders = (\<lambda>_. Inr []),
      submitMultipleOrders = (\<lambda>_ _. Inr (NewOrderResult 1, NewOrderResult 2)),
      submitNewOrder = (\<lambda>_. Inr (NewOrderResult 3)),
      cancelAllOpenOrders = (\<lambda>_. Inr ())\<rparr>"

definition s7_exchange :: exchange where
  "s7_exchange = (\<lambda>_. s7_client)"

definition s7_tm :: trade_manager where
  "s7_tm = \<lparr>exchangeInfo = None, positionLocks = (\<lambda>_. False), trace = []\<rparr>"

definition s7_pair :: pair where
  "s7_pair = \<lparr>symbol = ''XRPUSDT'', threshold = 1, fees_exemption_percentage = 1 / 10,
     num_previous_candles = 5, usdt_amount = 1000\<rparr>"

definition s7_settings :: "string \<rightharpoonup> pair" where
  "s7_settings = [''XRPUSDT'' \<mapsto> s7_pair]"

definition s7_position :: position where
  "s7_position = idle_position\<lparr>lock_close_price := Some 100, movement_threshold := Some 2\<rparr>"

definition s7_accounts :: account_data where
  "s7_accounts = [''A'' \<mapsto> \<lparr>positions = [''XRPUSDT'' \<mapsto> s7_position]\<rparr>]"


definition s7_market_order :: order_params where
  "s7_market_order =
     \<lparr>o_symbol = ''XRPUSDT'', o_side = BUY, o_type = ''MARKET'', o_quantity = Some 9.9,
      o_stopPrice = None, o_positionSide = ''LONG'', o_workingType = None,
      o_closePosition = None\<rparr>"

definition s7_stop_order :: order_params where
  "s7_stop_order =
     \<lparr>o_symbol = ''XRPUSDT'', o_side = SELL, o_type = ''STOP_MARKET'', o_quantity = None,
      o_stopPrice = Some 99.96, o_positionSide = ''LONG'', o_workingType = Some ''MARK_PRICE'',
      o_closePosition = Some ''true''\<rparr>"

text \<open>
  An exchange whose open-orders request fails during the first two moments and works
  afterwards; no trigger lock held; the user stream reporting a flat position.
\<close>

definition s3_exchange :: exchange where
  "s3_exchange =
     (\<lambda>n. if n < 2 then s7_client\<lparr>getAllOpenOrders := (\<lambda>_. Inl Transport)\<rparr> else s7_client)"

definition no_locks :: "string \<Rightarrow> bool" where
  "no_locks = (\<lambda>_. False)"


section \<open>Properties\<close>

subsection \<open>AccountManager\<close>

lemma getPositionData_None_iff:
  "getPositionData ad a s = None \<longleftrightarrow>
     (ad a = None \<or> (\<exists>td. ad a = Some td \<and> positions td s = None))"
  by (auto simp: getPositionData_def getAccountData_def split: option.splits)

lemma updatePosition_missing:
  "getPositionData ad a s = None \<Longrightarrow> \<exists>e. updatePosition a s u ad = (Inl e, ad)"
  by (auto simp: updatePosition_def getPositionData_def getAccountData_def
      split: option.splits)

lemma updatePosition_present:
  assumes "getPositionData ad a s = Some p"
  shows "\<exists>ad'. updatePosition a s u ad = (Inr (), ad') \<and>
           getPositionData ad' a s = Some (spread p u) \<and>
           (\<forall>a' s'. (a', s') \<noteq> (a, s) \<longrightarrow> getPositionData ad' a' s' = getPositionData ad a' s')"
  using assms
  by (auto simp: updatePosition_def getPositionData_def getAccountData_def
      split: option.splits)


lemma fst_updatePosition:
  "fst (updatePosition a s u ad) = Inr () \<longleftrightarrow> getPositionData ad a s \<noteq> None"
  by (auto simp: updatePosition_def getPositionData_def getAccountData_def split: option.splits)

lemma getPositionData_updatePosition:
  "getPositionData (snd (updatePosition a s u ad)) a' s' =
     (if a' = a \<and> s' = s then map_option (\<lambda>p. spread p u) (getPositionData ad a s)
      else getPositionData ad a' s')"
  by (auto simp: updatePosition_def getPositionData_def getAccountData_def split: option.splits)

text \<open>
  Claim C10. For an account name or a symbol that the stored account data does not
  hold, \<^verbatim>\<open>updatePosition\<close> throws and the in-memory account data stays as it was.
  When both exist, the call succeeds, every field the patch gives takes the patch's
  value, every other field of that position keeps its value, and no other position
  changes.
\<close>

theorem updatePosition_atomic_merge:
  "((ad a = None \<or> (\<exists>td. ad a = Some td \<and> positions td s = None)) \<longrightarrow>
      isl (fst (updatePosition a s u ad)) \<and> snd (updatePosition a s u ad) = ad) \<and>
   (\<forall>p. getPositionData ad a s = Some p \<longrightarrow>
      fst (updatePosition a s u ad) = Inr () \<and>
      (\<exists>p'. getPositionData (snd (updatePosition a s u ad)) a s = Some p' \<and>
         status p' = (case u_status u of Some v \<Rightarrow> v | None \<Rightarrow> status p) \<and>
         entry_price p' = (case u_entry_price u of Some v \<Rightarrow> v | None \<Rightarrow> entry_price p) \<and>
         triggers p' = (case u_triggers u of Some v \<Rightarrow> v | None \<Rightarrow> triggers p) \<and>
         stop_prices p' = (case u_stop_prices u of Some v \<Rightarrow> v | None \<Rightarrow> stop_prices p) \<and>
         trigger_side p' = (case u_trigger_side u of Some v \<Rightarrow> v | None \<Rightarrow> trigger_side p) \<and>
         lock_close_price p' =
           (case u_lock_close_price u of Some v \<Rightarrow> v | None \<Rightarrow> lock_close_price p) \<and>
         movement_threshold p' =
           (case u_movement_threshold u of Some v \<Rightarrow> v | None \<Rightarrow> movement_threshold p) \<and>
         is_placing_stop_loss_running p' =
           (case u_is_placing_stop_loss_running u of
              Some v \<Rightarrow> v | None \<Rightarrow> is_placing_stop_loss_running p)) \<and>
      (\<forall>a' s'. (a', s') \<noteq> (a, s) \<longrightarrow>
         getPositionData (snd (updatePosition a s u ad)) a' s' = getPositionData ad a' s'))"
proof (intro conjI impI allI)
  assume "ad a = None \<or> (\<exists>td. ad a = Some td \<and> positions td s = None)"
  then have "getPositionData ad a s = None" by (simp add: getPositionData_None_iff)
  from updatePosition_missing[OF this, of u]
  show "isl (fst (updatePosition a s u ad))" and "snd (updatePosition a s u ad) = ad"
    by auto
next
  fix p assume p: "getPositionData ad a s = Some p"
  from updatePosition_present[OF p, of u] obtain ad' where
    run: "updatePosition a s u ad = (Inr (), ad')"
    and pos: "getPositionData ad' a s = Some (spread p u)"
    and frame: "\<forall>a' s'. (a', s') \<noteq> (a, s) \<longrightarrow> getPositionData ad' a' s' = getPositionData ad a' s'"
    by blast
  show "fst (updatePosition a s u ad) = Inr ()" by (simp add: run)
  show "\<exists>p'. getPositionData (snd (updatePosition a s u ad)) a s = Some p' \<and>
         status p' = (case u_status u of Some v \<Rightarrow> v | None \<Rightarrow> status p) \<and>
         entry_price p' = (case u_entry_price u of Some v \<Rightarrow> v | None \<Rightarrow> entry_price p) \<and>
         triggers p' = (case u_triggers u of Some v \<Rightarrow> v | None \<Rightarrow> triggers p) \<and>
         stop_prices p' = (case u_stop_prices u of Some v \<Rightarrow> v | None \<Rightarrow> stop_prices p) \<and>
         trigger_side p' = (case u_trigger_side u of Some v \<Rightarrow> v | None \<Rightarrow> trigger_side p) \<and>
         lock_close_price p' =
           (case u_lock_close_price u of Some v \<Rightarrow> v | None \<Rightarrow> lock_close_price p) \<and>
         movement_threshold p' =
           (case u_movement_threshold u of Some v \<Rightarrow> v | None \<Rightarrow> movement_threshold p) \<and>
         is_placing_stop_loss_running p' =
           (case u_is_placing_stop_loss_running u of
              Some v \<Rightarrow> v | None \<Rightarrow> is_placing_stop_loss_running p)"
    by (rule exI[of _ "spread p u"]) (simp add: run pos spread_def split: option.splits)
  fix a' s' assume "(a', s') \<noteq> (a, s)"
  with frame show "getPositionData (snd (updatePosition a s u ad)) a' s' = getPositionData ad a' s'"
    by (simp add: run)
qed

theorem updatePosition_atomic_merge_witness:
  "s1_accounts ''nobody'' = None \<and>
   isl (fst (updatePosition ''nobody'' ''XRPUSDT'' s10_patch s1_accounts)) \<and>
   snd (updatePosition ''nobody'' ''XRPUSDT'' s10_patch s1_accounts) = s1_accounts \<and>
   getPositionData s1_accounts ''test_token'' ''XRPUSDT'' = Some s1_position \<and>
   fst (updatePosition ''test_token'' ''XRPUSDT'' s10_patch s1_accounts) = Inr () \<and>
   getPositionData (snd (updatePosition ''test_token'' ''XRPUSDT'' s10_patch s1_accounts))
       ''test_token'' ''XRPUSDT'' =
     Some (s1_position\<lparr>status := False, entry_price := None\<rparr>)"
proof -
  have h1: "s1_accounts ''nobody'' = None"
    by (simp add: s1_accounts_def)
  have h2: "getPositionData s1_accounts ''test_token'' ''XRPUSDT'' = Some s1_position"
    by (simp add: s1_accounts_def getPositionData_def getAccountData_def)
  have run: "getPositionData (snd (updatePosition ''test_token'' ''XRPUSDT'' s10_patch s1_accounts))
       ''test_token'' ''XRPUSDT'' = Some (s1_position\<lparr>status := False, entry_price := None\<rparr>)"
    by (simp add: s1_accounts_def getPositionData_def getAccountData_def updatePosition_def
        spread_def s10_patch_def no_updates_def s1_position_def idle_position_def)
  show ?thesis
    using updatePosition_atomic_merge[of s1_accounts "''nobody''" "''XRPUSDT''" s10_patch]
      updatePosition_atomic_merge[of s1_accounts "''test_token''" "''XRPUSDT''" s10_patch]
      h1 h2 run
    by simp
qed

subsection \<open>Trigger ladder\<close>

lemma ladder_loop_step:
  "i \<le> count \<Longrightarrow>
   ladder_loop E d m f count i cur trs sps =
   ladder_loop E d m f count (i + 1) (cur * stop_factor d m f)
     (trs @ [toFixed (trigger_at E d m i) 8]) (sps @ [toFixed (cur * stop_factor d m f) 8])"
  by (subst ladder_loop.simps) (simp add: stop_factor_def trigger_at_def Let_def)

lemma ladder_loop_stop:
  "\<not> i \<le> count \<Longrightarrow> ladder_loop E d m f count i cur trs sps = (trs, sps)"
  by (subst ladder_loop.simps) simp

lemma ladder_loop_unfold:
  "ladder_loop E d m f count i cur trs sps =
     (trs @ map (\<lambda>k. toFixed (trigger_at E d m k) 8) [i..count],
      sps @ map (\<lambda>k. toFixed (cur * stop_factor d m f ^ nat (k - i + 1)) 8) [i..count])"
proof (induction "nat (count + 1 - i)" arbitrary: i cur trs sps)
  case 0
  then have "\<not> i \<le> count" by simp
  then show ?case by (simp add: ladder_loop_stop)
next
  case (Suc n)
  then have True: "i \<le> count" and n: "n = nat (count + 1 - (i + 1))" by simp_all
  let ?q = "stop_factor d m f"
  have up: "[i..count] = i # [i + 1..count]"
    using True by (simp add: upto_rec1)
  have shift: "map (\<lambda>k. toFixed (cur * ?q * ?q ^ nat (k - (i + 1) + 1)) 8) [i + 1..count] =
               map (\<lambda>k. toFixed (cur * ?q ^ nat (k - i + 1)) 8) [i + 1..count]"
  proof (rule map_cong[OF refl])
    fix k assume "k \<in> set [i + 1..count]"
    then have "nat (k - i + 1) = Suc (nat (k - (i + 1) + 1))" by auto
    then show "toFixed (cur * ?q * ?q ^ nat (k - (i + 1) + 1)) 8 =
               toFixed (cur * ?q ^ nat (k - i + 1)) 8"
      by (simp add: mult.assoc)
  qed
  show ?case
    unfolding ladder_loop_step[OF True] Suc.hyps(1)[OF n] shift
    by (subst (1 2) up) (simp)
qed







subsection \<open>Candle history\<close>

lemma chronological_le_last:
  "chronological cs \<Longrightarrow> x \<in> set cs \<Longrightarrow> openTime x \<le> openTime (last cs)"
proof (induction cs rule: rev_induct)
  case Nil
  then show ?case by simp
next
  case (snoc y ys)
  then show ?case
    by (auto simp: chronological_def sorted_wrt_append)
qed

lemma chronological_tl: "chronological cs \<Longrightarrow> chronological (tl cs)"
  by (cases cs) (simp_all add: chronological_def)

lemma chronological_snoc:
  assumes "chronological cs" and "cs \<noteq> [] \<longrightarrow> openTime (last cs) < openTime c"
  shows "chronological (cs @ [c])"
proof -
  have "openTime x < openTime c" if "x \<in> set cs" for x
    using chronological_le_last[OF assms(1) that] assms(2) that by (cases cs) auto
  with assms(1) show ?thesis
    by (simp add: chronological_def sorted_wrt_append)
qed

lemma last_tl: "tl cs \<noteq> [] \<Longrightarrow> last (tl cs) = last cs"
  by (cases cs) auto

text \<open>
  Claim C4, as amended. \<^verbatim>\<open>addCandleToQueue\<close> always pushes the candle at the end,
  after dropping the oldest entry when the history is full; it never compares open
  times and never replaces the last entry. A history of at most 20 entries stays at
  most 20 long. When the candle is newer than the last entry (or the history is
  empty) the result is the one the specified \<^verbatim>\<open>append\<close> gives, and a chronological
  history stays chronological.
\<close>

theorem addCandleToQueue_fifo:
  "last (addCandleToQueue cs c capacity) = c \<and>
   butlast (addCandleToQueue cs c capacity) = (if length cs \<ge> capacity then tl cs else cs) \<and>
   (length cs \<le> capacity \<longrightarrow> length (addCandleToQueue cs c capacity) \<le> capacity) \<and>
   (length cs \<le> capacity \<and> (cs \<noteq> [] \<longrightarrow> openTime (last cs) < openTime c) \<longrightarrow>
      addCandleToQueue cs c capacity = spec_append cs c) \<and>
   (chronological cs \<and> (cs \<noteq> [] \<longrightarrow> openTime (last cs) < openTime c) \<longrightarrow>
      chronological (addCandleToQueue cs c capacity))"
proof (intro conjI impI)
  show "last (addCandleToQueue cs c capacity) = c"
    by (simp add: addCandleToQueue_def)
  show "butlast (addCandleToQueue cs c capacity) = (if length cs \<ge> capacity then tl cs else cs)"
    by (simp add: addCandleToQueue_def)
  show "length (addCandleToQueue cs c capacity) \<le> capacity" if "length cs \<le> capacity"
    using that by (cases cs) (auto simp: addCandleToQueue_def capacity_def)
  show "addCandleToQueue cs c capacity = spec_append cs c"
    if "length cs \<le> capacity \<and> (cs \<noteq> [] \<longrightarrow> openTime (last cs) < openTime c)"
    using that by (auto simp: addCandleToQueue_def spec_append_def capacity_def)
  show "chronological (addCandleToQueue cs c capacity)"
    if h: "chronological cs \<and> (cs \<noteq> [] \<longrightarrow> openTime (last cs) < openTime c)"
  proof (cases "length cs \<ge> capacity")
    case False
    then show ?thesis using h by (simp add: addCandleToQueue_def chronological_snoc)
  next
    case True
    have "chronological (tl cs @ [c])"
    proof (rule chronological_snoc)
      show "chronological (tl cs)" using h by (simp add: chronological_tl)
      show "tl cs \<noteq> [] \<longrightarrow> openTime (last (tl cs)) < openTime c"
        using h by (cases cs) (auto simp: last_tl)
    qed
    with True show ?thesis by (simp add: addCandleToQueue_def)
  qed
qed

theorem addCandleToQueue_fifo_witness:
  "length [k1] \<le> capacity \<and> chronological [k1] \<and>
   openTime (last [k1]) < openTime (k1\<lparr>openTime := 2000\<rparr>) \<and>
   addCandleToQueue [k1] (k1\<lparr>openTime := 2000\<rparr>) capacity = [k1, k1\<lparr>openTime := 2000\<rparr>] \<and>
   spec_append [k1] (k1\<lparr>openTime := 2000\<rparr>) = [k1, k1\<lparr>openTime := 2000\<rparr>] \<and>
   length (addCandleToQueue [k1] (k1\<lparr>openTime := 2000\<rparr>) capacity) \<le> capacity \<and>
   chronological (addCandleToQueue [k1] (k1\<lparr>openTime := 2000\<rparr>) capacity)"
proof -
  have h1: "length [k1] \<le> capacity" by (simp add: capacity_def)
  have h2: "chronological [k1]" by (simp add: chronological_def)
  have h3: "openTime (last [k1]) < openTime (k1\<lparr>openTime := 2000\<rparr>)" by (simp add: k1_def)
  have ev: "addCandleToQueue [k1] (k1\<lparr>openTime := 2000\<rparr>) capacity = [k1, k1\<lparr>openTime := 2000\<rparr>]"
    by (simp add: addCandleToQueue_def capacity_def)
  note T = addCandleToQueue_fifo[of "[k1]" "k1\<lparr>openTime := 2000\<rparr>"]
  from T h1 have len: "length (addCandleToQueue [k1] (k1\<lparr>openTime := 2000\<rparr>) capacity) \<le> capacity"
    by blast
  from T h1 h3 have "addCandleToQueue [k1] (k1\<lparr>openTime := 2000\<rparr>) capacity =
      spec_append [k1] (k1\<lparr>openTime := 2000\<rparr>)"
    by blast
  with ev have sp: "spec_append [k1] (k1\<lparr>openTime := 2000\<rparr>) = [k1, k1\<lparr>openTime := 2000\<rparr>]"
    by simp
  from T h2 h3 have chr: "chronological (addCandleToQueue [k1] (k1\<lparr>openTime := 2000\<rparr>) capacity)"
    by blast
  show ?thesis
    by (intro conjI h1 h2 h3 ev sp len chr)
qed

text \<open>
  The claim as stated fails for a late update of the last candle: the specified
  \<^verbatim>\<open>append\<close> replaces the entry, the code stores the candle twice and the history
  is no longer strictly ordered by open time.
\<close>

theorem append_replaces_last_counterexample:
  "\<not> openTime k1 > openTime (last [k1]) \<and>
   spec_append [k1] k1 = [k1] \<and>
   addCandleToQueue [k1] k1 capacity = [k1, k1] \<and>
   addCandleToQueue [k1] k1 capacity \<noteq> spec_append [k1] k1 \<and>
   chronological [k1] \<and>
   \<not> chronological (addCandleToQueue [k1] k1 capacity)"
  by (simp add: spec_append_def addCandleToQueue_def capacity_def chronological_def)

subsection \<open>Movement detector\<close>

lemma diff_of_row_spec: "0 < c_open x \<Longrightarrow> diff_of_row x = spec_diff x"
  by (simp add: diff_of_row_def spec_diff_def)

lemma map_diff_spec:
  "\<forall>x\<in>set H. 0 < c_open x \<Longrightarrow> map diff_of_row H = map spec_diff H"
  by (simp add: diff_of_row_spec)

lemma slice_from_last:
  assumes "1 \<le> n"
  shows "slice_from (- n) xs = drop (length xs - nat n) xs"
proof -
  have "nat (max (int (length xs) + - n) 0) = length xs - nat n"
    using assms by arith
  with assms show ?thesis
    by (simp add: slice_from_def Let_def)
qed

lemma detector_formulas:
  assumes "\<forall>x\<in>set H. 0 < c_open x" and "1 \<le> num_previous_candles pr"
  shows "dynamic_threshold pr H = spec_dynamic_threshold pr H"
    and "past_diffs_sum pr H = spec_past_sum pr H"
    and "current_diff c = spec_diff c"
  using assms
  by (simp_all add: dynamic_threshold_def spec_dynamic_threshold_def average_diff_def
      mean_def spec_average_diff_def map_diff_spec past_diffs_sum_def spec_past_sum_def
      slice_from_last current_diff_def spec_diff_def)

lemma spread_lock_patch:
  "spread p (lock_patch cl dyn) =
     p\<lparr>lock_close_price := Some cl, movement_threshold := Some (dyn / 2)\<rparr>"
  by (simp add: spread_def lock_patch_def no_updates_def)

lemma lock_tokens_Cons:
  "lock_tokens (t # ts) symb cl dyn ad =
     (if getPositionData ad t symb = None then updatePosition t symb (lock_patch cl dyn) ad
      else lock_tokens ts symb cl dyn (snd (updatePosition t symb (lock_patch cl dyn) ad)))"
proof (cases "updatePosition t symb (lock_patch cl dyn) ad")
  case (Pair r ad')
  with fst_updatePosition[of t symb "lock_patch cl dyn" ad] show ?thesis
    by (cases r) (auto simp: lock_patch_def)
qed

lemma lock_tokens_ok_iff:
  "fst (lock_tokens ts symb cl dyn ad) = Inr () \<longleftrightarrow>
   (\<forall>t\<in>set ts. getPositionData ad t symb \<noteq> None)"
proof (induction ts arbitrary: ad)
  case Nil
  then show ?case by simp
next
  case (Cons t ts)
  show ?case
    using fst_updatePosition[of t symb "lock_patch cl dyn" ad]
    by (auto simp: lock_tokens_Cons Cons.IH getPositionData_updatePosition
        simp del: lock_tokens.simps)
qed

lemma lock_tokens_positions:
  "fst (lock_tokens ts symb cl dyn ad) = Inr () \<Longrightarrow>
   getPositionData (snd (lock_tokens ts symb cl dyn ad)) a s =
     (if a \<in> set ts \<and> s = symb
      then map_option (\<lambda>p. p\<lparr>lock_close_price := Some cl, movement_threshold := Some (dyn / 2)\<rparr>)
             (getPositionData ad a s)
      else getPositionData ad a s)"
proof (induction ts arbitrary: ad)
  case Nil
  then show ?case by simp
next
  case (Cons t ts)
  let ?ad1 = "snd (updatePosition t symb (lock_patch cl dyn) ad)"
  from Cons.prems have t: "getPositionData ad t symb \<noteq> None"
    and rest: "fst (lock_tokens ts symb cl dyn ?ad1) = Inr ()"
    by (auto simp: lock_tokens_Cons fst_updatePosition simp del: lock_tokens.simps split: if_splits)
  show ?case
    using t Cons.IH[OF rest]
    by (auto simp: lock_tokens_Cons getPositionData_updatePosition spread_lock_patch
        simp del: lock_tokens.simps)
qed

lemma processCandles_eq:
  assumes "symbolCandles symb = Some H" and "H \<noteq> []"
    and "find (\<lambda>pr. symbol pr = symb) pairs = Some pr"
  shows "processCandles pairs tokens symbolCandles symb c ad =
     (if code_trigger_condition pr H c
      then (if fst (lock_tokens tokens symb (c_close c) (dynamic_threshold pr H) ad) = Inr ()
            then (Inr True, snd (lock_tokens tokens symb (c_close c) (dynamic_threshold pr H) ad))
            else (Inl (projl (fst (lock_tokens tokens symb (c_close c) (dynamic_threshold pr H) ad))),
                  snd (lock_tokens tokens symb (c_close c) (dynamic_threshold pr H) ad)))
      else (Inr False, ad))"
proof (cases "lock_tokens tokens symb (c_close c) (dynamic_threshold pr H) ad")
  case (Pair r ad')
  with assms show ?thesis
    by (cases r) (simp_all add: processCandles_def code_trigger_condition_def Let_def)
qed

lemma code_condition_spec:
  assumes "\<forall>x\<in>set H. 0 < c_open x" and "1 \<le> num_previous_candles pr"
  shows "code_trigger_condition pr H c = spec_trigger_condition pr H c"
  by (simp add: code_trigger_condition_def spec_trigger_condition_def detector_formulas[OF assms])


text \<open>
  When the history does end with the candle itself, \<open>past_sum\<close> contains
  \<open>current_diff\<close> as a summand and the criteria are never met.
\<close>

lemma detector_silent_on_included_candle:
  assumes "symbolCandles symb = Some H" and "H \<noteq> []" and "last H = c"
    and "find (\<lambda>pr. symbol pr = symb) pairs = Some pr"
    and "\<forall>x\<in>set H. 0 < c_open x"
    and "1 \<le> num_previous_candles pr"
  shows "processCandles pairs tokens symbolCandles symb c ad = (Inr False, ad)"
proof -
  let ?n = "nat (num_previous_candles pr)"
  let ?ds = "map spec_diff H"
  from assms(2) have ne: "drop (length H - ?n) ?ds \<noteq> []"
    using assms(6) by (cases H) auto
  have lst: "last (drop (length H - ?n) ?ds) = spec_diff c"
    using ne assms(2,3) by (simp add: last_map)
  have nonneg: "\<forall>x\<in>set (butlast (drop (length H - ?n) ?ds)). 0 \<le> x"
  proof
    fix x assume "x \<in> set (butlast (drop (length H - ?n) ?ds))"
    then have "x \<in> set ?ds" by (meson in_set_butlastD in_set_dropD)
    then obtain y where "y \<in> set H" and "x = spec_diff y" by auto
    with assms(5) show "0 \<le> x"
      by (auto simp: spec_diff_def intro!: mult_nonneg_nonneg divide_nonneg_pos)
  qed
  have "spec_past_sum pr H =
        sum_list (butlast (drop (length H - ?n) ?ds)) + last (drop (length H - ?n) ?ds)"
    unfolding spec_past_sum_def
    by (subst append_butlast_last_id[OF ne, symmetric]) (simp del: append_butlast_last_id)
  with lst sum_list_nonneg[of "butlast (drop (length H - ?n) ?ds)"] nonneg
  have "spec_diff c \<le> spec_past_sum pr H" by simp
  then have "\<not> spec_trigger_condition pr H c"
    by (simp add: spec_trigger_condition_def)
  then show ?thesis
    using code_condition_spec[OF assms(5,6), of c]
    by (simp add: processCandles_eq[where symbolCandles = symbolCandles and symb = symb, OF assms(1,2,4)])
qed

lemma s5_run:
  "processCandles [s1_pair] [''A'', ''B''] s5_candles ''XRPUSDT'' s5_candle s2_accounts =
     (Inr True, snd (lock_tokens [''A'', ''B''] ''XRPUSDT'' 101 (3 / 20) s2_accounts))"
  by (simp add: processCandles_def s5_candles_def s5_history_def s1_pair_def Let_def
      dynamic_threshold_def average_diff_def mean_def diff_of_row_def k1_def
      current_diff_def s5_candle_def past_diffs_sum_def slice_from_def
      updatePosition_def s2_accounts_def split: prod.splits sum.splits)


text \<open>
  Claim C2, as amended. When the detector meets its criteria on a closed candle \<open>c\<close>
  for a symbol, every configured token has a position for the symbol, and each of
  these positions, whatever its status, gets \<open>lock_close_price = c.close\<close> and
  \<open>movement_threshold = dynamic_threshold / 2\<close>; every other field of it, the status
  included, and every other position stay as they were. A position that was not open
  is thereby armed: its lock price is set and its status is still false.
\<close>

theorem processCandles_locks_all_tokens:
  assumes "symbolCandles symb = Some H"
    and "find (\<lambda>pr. symbol pr = symb) pairs = Some pr"
    and "fst (processCandles pairs tokens symbolCandles symb c ad) = Inr True"
  shows "list_all (\<lambda>t. getPositionData ad t symb \<noteq> None) tokens \<and>
         (\<forall>a s. getPositionData (snd (processCandles pairs tokens symbolCandles symb c ad)) a s =
            (if a \<in> set tokens \<and> s = symb
             then map_option
                    (\<lambda>p. p\<lparr>lock_close_price := Some (c_close c),
                         movement_threshold := Some (dynamic_threshold pr H / 2)\<rparr>)
                    (getPositionData ad a s)
             else getPositionData ad a s))"
proof -
  from assms have ne: "H \<noteq> []"
    by (auto simp: processCandles_def)
  note eq = processCandles_eq[where symbolCandles = symbolCandles and symb = symb,
      OF assms(1) ne assms(2), of tokens c ad]
  from assms(3) have ok: "fst (lock_tokens tokens symb (c_close c) (dynamic_threshold pr H) ad) = Inr ()"
    and run: "snd (processCandles pairs tokens symbolCandles symb c ad) =
              snd (lock_tokens tokens symb (c_close c) (dynamic_threshold pr H) ad)"
    unfolding eq by (auto split: if_splits)
  from ok have "list_all (\<lambda>t. getPositionData ad t symb \<noteq> None) tokens"
    by (simp add: lock_tokens_ok_iff list_all_iff)
  moreover have "\<forall>a s. getPositionData (snd (processCandles pairs tokens symbolCandles symb c ad)) a s =
            (if a \<in> set tokens \<and> s = symb
             then map_option
                    (\<lambda>p. p\<lparr>lock_close_price := Some (c_close c),
                         movement_threshold := Some (dynamic_threshold pr H / 2)\<rparr>)
                    (getPositionData ad a s)
             else getPositionData ad a s)"
    unfolding run by (intro allI lock_tokens_positions[OF ok])
  ultimately show ?thesis by blast
qed

lemma s2_positions:
  "getPositionData s2_accounts ''A'' ''XRPUSDT'' = Some s2_open_position"
  "getPositionData s2_accounts ''B'' ''XRPUSDT'' = Some idle_position"
  by (simp_all add: s2_accounts_def getPositionData_def getAccountData_def)

lemma s5_threshold: "dynamic_threshold s1_pair s5_history = 3 / 20"
  by (simp add: dynamic_threshold_def average_diff_def mean_def diff_of_row_def
      s5_history_def s1_pair_def k1_def)

theorem processCandles_locks_all_tokens_witness:
  "s5_candles ''XRPUSDT'' = Some s5_history \<and>
   find (\<lambda>pr. symbol pr = ''XRPUSDT'') [s1_pair] = Some s1_pair \<and>
   fst (processCandles [s1_pair] [''A'', ''B''] s5_candles ''XRPUSDT'' s5_candle s2_accounts) =
     Inr True \<and>
   getPositionData
     (snd (processCandles [s1_pair] [''A'', ''B''] s5_candles ''XRPUSDT'' s5_candle s2_accounts))
     ''B'' ''XRPUSDT'' =
     Some (idle_position\<lparr>lock_close_price := Some 101, movement_threshold := Some (3 / 40)\<rparr>) \<and>
   getPositionData
     (snd (processCandles [s1_pair] [''A'', ''B''] s5_candles ''XRPUSDT'' s5_candle s2_accounts))
     ''A'' ''XRPUSDT'' =
     Some (s2_open_position\<lparr>lock_close_price := Some 101, movement_threshold := Some (3 / 40)\<rparr>)"
proof -
  have h1: "s5_candles ''XRPUSDT'' = Some s5_history" by (simp add: s5_candles_def)
  have h2: "find (\<lambda>pr. symbol pr = ''XRPUSDT'') [s1_pair] = Some s1_pair"
    by (simp add: s1_pair_def)
  have h3: "fst (processCandles [s1_pair] [''A'', ''B''] s5_candles ''XRPUSDT'' s5_candle
               s2_accounts) = Inr True"
    by (simp add: s5_run)
  have cl: "c_close s5_candle = 101" by (simp add: s5_candle_def)
  from processCandles_locks_all_tokens[where symbolCandles = s5_candles
      and symb = "''XRPUSDT''", OF h1 h2 h3]
  have all: "\<forall>a s. getPositionData
       (snd (processCandles [s1_pair] [''A'', ''B''] s5_candles ''XRPUSDT'' s5_candle s2_accounts))
       a s =
       (if a \<in> set [''A'', ''B''] \<and> s = ''XRPUSDT''
        then map_option
               (\<lambda>p. p\<lparr>lock_close_price := Some (c_close s5_candle),
                    movement_threshold := Some (dynamic_threshold s1_pair s5_history / 2)\<rparr>)
               (getPositionData s2_accounts a s)
        else getPositionData s2_accounts a s)"
    by blast
  have b: "getPositionData
     (snd (processCandles [s1_pair] [''A'', ''B''] s5_candles ''XRPUSDT'' s5_candle s2_accounts))
     ''B'' ''XRPUSDT'' =
     Some (idle_position\<lparr>lock_close_price := Some 101, movement_threshold := Some (3 / 40)\<rparr>)"
    by (simp add: all s2_positions cl s5_threshold)
  have a: "getPositionData
     (snd (processCandles [s1_pair] [''A'', ''B''] s5_candles ''XRPUSDT'' s5_candle s2_accounts))
     ''A'' ''XRPUSDT'' =
     Some (s2_open_position\<lparr>lock_close_price := Some 101, movement_threshold := Some (3 / 40)\<rparr>)"
    by (simp add: all s2_positions cl s5_threshold)
  show ?thesis
    by (intro conjI h1 h2 h3 a b)
qed

lemma s5_positions_after:
  "getPositionData
     (snd (processCandles [s1_pair] [''A'', ''B''] s5_candles ''XRPUSDT'' s5_candle s2_accounts))
     ''A'' ''XRPUSDT'' =
     Some (s2_open_position\<lparr>lock_close_price := Some 101, movement_threshold := Some (3 / 40)\<rparr>)"
proof -
  have ok: "fst (lock_tokens [''A'', ''B''] ''XRPUSDT'' 101 (3 / 20) s2_accounts) = Inr ()"
    by (simp add: lock_tokens_ok_iff s2_positions del: lock_tokens.simps)
  show ?thesis
    by (simp add: s5_run lock_tokens_positions[OF ok] s2_positions del: lock_tokens.simps)
qed

text \<open>
  The claim as stated fails for an open position: account A holds an open long, the
  detector fires, and A's lock price and movement threshold are overwritten.
\<close>

theorem rearm_open_position_counterexample:
  "status s2_open_position \<and>
   getPositionData s2_accounts ''A'' ''XRPUSDT'' = Some s2_open_position \<and>
   fst (processCandles [s1_pair] [''A'', ''B''] s5_candles ''XRPUSDT'' s5_candle s2_accounts) =
     Inr True \<and>
   getPositionData
     (snd (processCandles [s1_pair] [''A'', ''B''] s5_candles ''XRPUSDT'' s5_candle s2_accounts))
     ''A'' ''XRPUSDT'' =
     Some (s2_open_position\<lparr>lock_close_price := Some 101, movement_threshold := Some (3 / 40)\<rparr>) \<and>
   getPositionData
     (snd (processCandles [s1_pair] [''A'', ''B''] s5_candles ''XRPUSDT'' s5_candle s2_accounts))
     ''A'' ''XRPUSDT'' \<noteq> getPositionData s2_accounts ''A'' ''XRPUSDT''"
proof -
  have a: "status s2_open_position" by (simp add: s2_open_position_def)
  have b: "fst (processCandles [s1_pair] [''A'', ''B''] s5_candles ''XRPUSDT'' s5_candle
              s2_accounts) = Inr True"
    by (simp add: s5_run)
  have c: "getPositionData
     (snd (processCandles [s1_pair] [''A'', ''B''] s5_candles ''XRPUSDT'' s5_candle s2_accounts))
     ''A'' ''XRPUSDT'' \<noteq> getPositionData s2_accounts ''A'' ''XRPUSDT''"
    unfolding s5_positions_after s2_positions(1) by (simp add: s2_open_position_def)
  show ?thesis
    by (intro conjI a s2_positions(1) b s5_positions_after c)
qed

subsection \<open>User stream reconciliation\<close>

lemma handleAccountUpdate_Cons:
  "handleAccountUpdate a (u # us) ad =
     (if getPositionData ad a (up_symbol u) = None
      then updatePosition a (up_symbol u) (reconcile_patch u) ad
      else handleAccountUpdate a us (snd (updatePosition a (up_symbol u) (reconcile_patch u) ad)))"
proof (cases "updatePosition a (up_symbol u) (reconcile_patch u) ad")
  case (Pair r ad')
  with fst_updatePosition[of a "up_symbol u" "reconcile_patch u" ad] show ?thesis
    by (cases r) (auto simp: reconcile_patch_def)
qed










subsection \<open>Ladder alignment (P1)\<close>

lemma P1_updatePosition:
  assumes "P1 ad"
    and "\<And>p. getPositionData ad a s = Some p \<Longrightarrow> ladder_aligned p \<Longrightarrow> ladder_aligned (spread p u)"
  shows "P1 (snd (updatePosition a s u ad))"
  using assms
  by (auto simp: P1_def getPositionData_updatePosition split: if_splits)

lemma aligned_spread_untouched:
  "u_triggers u = None \<Longrightarrow> u_stop_prices u = None \<Longrightarrow>
   ladder_aligned (spread p u) = ladder_aligned p"
  by (simp add: ladder_aligned_def spread_def)

lemma aligned_spread_both:
  "u_triggers u = Some trs \<Longrightarrow> u_stop_prices u = Some sps \<Longrightarrow>
   ladder_aligned (spread p u) = (length trs = length sps)"
  by (simp add: ladder_aligned_def spread_def)

lemma init_pairs_lookup:
  "init_pairs prs ps s =
     (case ps s of
        Some p \<Rightarrow> Some p
      | None \<Rightarrow> if s \<in> symbol ` set prs then Some idle_position else None)"
  by (induction prs arbitrary: ps) (auto split: option.splits)

lemma P1_initializeAccountData:
  assumes "P1 ad"
  shows "P1 (initializeAccountData a prs ad)"
  unfolding P1_def
proof (intro allI impI)
  fix a' s p
  assume p: "getPositionData (initializeAccountData a prs ad) a' s = Some p"
  show "ladder_aligned p"
  proof (cases "getPositionData ad a' s")
    case (Some q)
    with p have "p = q"
      by (auto simp: initializeAccountData_def getPositionData_def getAccountData_def
          init_pairs_lookup Let_def split: option.splits if_splits)
    with Some assms show ?thesis by (auto simp: P1_def)
  next
    case None
    with p have "p = idle_position"
      by (auto simp: initializeAccountData_def getPositionData_def getAccountData_def
          init_pairs_lookup Let_def split: option.splits if_splits)
    then show ?thesis by (simp add: ladder_aligned_def idle_position_def)
  qed
qed

lemma P1_lock_tokens: "P1 ad \<Longrightarrow> P1 (snd (lock_tokens ts symb cl dyn ad))"
proof (induction ts arbitrary: ad)
  case Nil
  then show ?case by simp
next
  case (Cons t ts)
  have "P1 (snd (updatePosition t symb (lock_patch cl dyn) ad))"
    using Cons.prems
    by (rule P1_updatePosition) (simp add: aligned_spread_untouched lock_patch_def no_updates_def)
  with Cons.IH show ?case
    by (simp add: lock_tokens_Cons del: lock_tokens.simps)
qed

lemma P1_lock_tokensD:
  "lock_tokens ts symb cl dyn ad = (r, ad') \<Longrightarrow> P1 ad \<Longrightarrow> P1 ad'"
  using P1_lock_tokens[of ad ts symb cl dyn] by simp

lemma P1_processCandles:
  "P1 ad \<Longrightarrow> P1 (snd (processCandles pairs tokens symbolCandles symb c ad))"
  by (auto simp: processCandles_def Let_def dest: P1_lock_tokensD
      split: option.splits prod.splits sum.splits)

lemma ladder_loop_lengths:
  "ladder_loop E d m f N i cur trs sps = (trs', sps') \<Longrightarrow> length trs = length sps \<Longrightarrow>
   length trs' = length sps'"
  by (auto simp: ladder_loop_unfold)

lemma P1_updatePositionD:
  assumes "updatePosition a s u ad = (r, ad')" and "P1 ad"
    and "\<And>p. getPositionData ad a s = Some p \<Longrightarrow> ladder_aligned p \<Longrightarrow> ladder_aligned (spread p u)"
  shows "P1 ad'"
  using P1_updatePosition[of ad a s u, OF assms(2,3)] assms(1) by simp

lemma P1_calculateTriggers:
  assumes "P1 ad"
  shows "P1 (snd (calculateTriggers pairSettings ad E d a s N))"
proof (cases "getPositionData ad a s")
  case None
  with assms show ?thesis by (simp add: calculateTriggers_def)
next
  case (Some p)
  show ?thesis
  proof (cases "truthy (movement_threshold p)")
    case None
    with Some assms show ?thesis by (simp add: calculateTriggers_def)
  next
    case m: (Some m)
    show ?thesis
    proof (cases "pairSettings s")
      case None
      with Some m assms show ?thesis by (simp add: calculateTriggers_def)
    next
      case ps: (Some ps)
      let ?f = "fees_exemption_percentage ps"
      let ?s0 = "if d = Long then E * (1 - m / 100 - ?f / 100) else E * (1 + m / 100 + ?f / 100)"
      obtain trs sps where loop: "ladder_loop E d m ?f N 1 ?s0 [] [] = (trs, sps)"
        by (cases "ladder_loop E d m ?f N 1 ?s0 [] []") auto
      then have len: "length trs = length sps"
        by (rule ladder_loop_lengths) simp
      let ?u = "no_updates\<lparr>u_triggers := Some trs, u_stop_prices := Some sps,
                  u_trigger_side := Some (Some d)\<rparr>"
      have "P1 (snd (updatePosition a s ?u ad))"
        using assms by (rule P1_updatePosition) (simp add: aligned_spread_both[of _ trs sps] len)
      moreover have "snd (calculateTriggers pairSettings ad E d a s N) =
                     snd (updatePosition a s ?u ad)"
        using Some m ps loop
        by (auto simp: calculateTriggers_def Let_def split: prod.splits sum.splits)
      ultimately show ?thesis by simp
    qed
  qed
qed

lemma P1_after_entry:
  "P1 ad \<Longrightarrow> P1 (after_entry pairSettings a s price d response ad)"
  by (simp add: after_entry_def Let_def P1_calculateTriggers)

lemma P1_checkMovementThreshold:
  assumes "P1 ad"
  shows "P1 (fst (snd (checkMovementThreshold ex pairSettings a s price ad tm)))"
  using assms
  by (auto simp: checkMovementThreshold_def Let_def P1_after_entry
      split: option.splits prod.splits sum.splits)

lemma P1_trail_loop:
  "P1 ad \<Longrightarrow> length trs = length sps \<Longrightarrow>
   P1 (fst (snd (trail_loop ex a s side stopPrice trs sps retryCount ad tm)))"
proof (induction ex a s side stopPrice trs sps retryCount ad tm rule: trail_loop.induct)
  case (1 ex a s side stopPrice trs sps retryCount ad tm)
  have upd: "P1 (snd (updatePosition a s
               (no_updates\<lparr>u_triggers := Some (drop 1 trs), u_stop_prices := Some (drop 1 sps)\<rparr>) ad))"
    using "1.prems"(1)
    by (rule P1_updatePosition)
      (simp add: aligned_spread_both[of _ "drop 1 trs" "drop 1 sps"] "1.prems"(2))
  show ?case
  proof (cases "retryCount < 3")
    case False
    then show ?thesis using "1.prems" by (subst trail_loop.simps) simp
  next
    case True
    obtain r tm' where pl: "placeTrailStopLoss ex s side stopPrice tm = (r, tm')"
      by (cases "placeTrailStopLoss ex s side stopPrice tm")
    show ?thesis
    proof (cases r)
      case (Inl e)
      with True pl "1.prems" show ?thesis by (subst trail_loop.simps) simp
    next
      case (Inr placed)
      show ?thesis
      proof (cases placed)
        case True': True
        with True pl Inr upd show ?thesis
          by (subst trail_loop.simps) (auto split: prod.splits sum.splits)
      next
        case False
        from "1.IH"[OF True pl[symmetric] Inr False "1.prems"]
        show ?thesis
          using True pl Inr False by (subst trail_loop.simps) simp
      qed
    qed
  qed
qed

lemma P1_trail_loopD:
  "trail_loop ex a s side stopPrice trs sps retryCount ad tm = (r, ad', tm') \<Longrightarrow>
   P1 ad \<Longrightarrow> length trs = length sps \<Longrightarrow> P1 ad'"
  using P1_trail_loop[of ad trs sps ex a s side stopPrice retryCount tm] by simp

lemma P1_checkTriggers:
  assumes "P1 ad"
  shows "P1 (fst (checkTriggers ex a s price ad tm pt))"
proof (cases "getPositionData ad a s")
  case None
  with assms show ?thesis by (simp add: checkTriggers_def)
next
  case (Some p)
  with assms have len: "length (triggers p) = length (stop_prices p)"
    by (auto simp: P1_def ladder_aligned_def)
  show ?thesis
    using assms Some len
    by (auto simp: checkTriggers_def Let_def dest!: P1_trail_loopD
        split: prod.splits sum.splits list.splits bool.splits)
qed

lemma P1_handleAccountUpdate: "P1 ad \<Longrightarrow> P1 (snd (handleAccountUpdate a us ad))"
proof (induction us arbitrary: ad)
  case Nil
  then show ?case by simp
next
  case (Cons u us)
  have "P1 (snd (updatePosition a (up_symbol u) (reconcile_patch u) ad))"
    using Cons.prems
    by (rule P1_updatePosition)
      (auto simp: reconcile_patch_def cleared_def no_updates_def ladder_aligned_def spread_def)
  with Cons.IH show ?case
    by (simp add: handleAccountUpdate_Cons del: handleAccountUpdate.simps)
qed

text \<open>
  Claim C9. Every state-mutating operation keeps the invariant
  \<open>len(triggers) = len(stop_prices)\<close> on every position: initialization, arming by
  the detector, the ladder computation (alone and as part of an entry), a ladder
  advance of the trigger runner and the reconciliation of an account update, with any
  arguments and whatever the exchange answers, also when the operation ends in an
  exception.
\<close>

theorem ladder_lengths_invariant:
  assumes "P1 ad" and "engine_step ad ad'"
  shows "P1 ad'"
  using assms(2,1)
  by (cases rule: engine_step.cases)
    (simp_all add: P1_initializeAccountData P1_processCandles P1_calculateTriggers
      P1_checkMovementThreshold P1_checkTriggers P1_handleAccountUpdate)

lemma P1_empty: "P1 Map.empty"
  by (simp add: P1_def getPositionData_def getAccountData_def)

lemma P1_s2_accounts: "P1 s2_accounts"
  by (auto simp: P1_def getPositionData_def getAccountData_def s2_accounts_def ladder_aligned_def
      s2_open_position_def idle_position_def split: if_splits)

lemma s2_advance:
  "getPositionData (fst (checkTriggers s7_exchange ''A'' ''XRPUSDT'' 100 s2_accounts s7_tm no_locks))
     ''A'' ''XRPUSDT'' =
   Some (s2_open_position\<lparr>triggers := [100.485], stop_prices := [99.017326]\<rparr>)"
  by code_simp

theorem ladder_lengths_invariant_witness:
  "P1 s2_accounts \<and>
   engine_step s2_accounts
     (fst (checkTriggers s7_exchange ''A'' ''XRPUSDT'' 100 s2_accounts s7_tm no_locks)) \<and>
   P1 (fst (checkTriggers s7_exchange ''A'' ''XRPUSDT'' 100 s2_accounts s7_tm no_locks)) \<and>
   getPositionData (fst (checkTriggers s7_exchange ''A'' ''XRPUSDT'' 100 s2_accounts s7_tm no_locks))
     ''A'' ''XRPUSDT'' =
     Some (s2_open_position\<lparr>triggers := [100.485], stop_prices := [99.017326]\<rparr>)"
proof -
  have step: "engine_step s2_accounts
     (fst (checkTriggers s7_exchange ''A'' ''XRPUSDT'' 100 s2_accounts s7_tm no_locks))"
    by (rule engine_step.advance)
  from ladder_lengths_invariant[OF P1_s2_accounts step]
  have inv: "P1 (fst (checkTriggers s7_exchange ''A'' ''XRPUSDT'' 100 s2_accounts s7_tm no_locks))" .
  show ?thesis by (intro conjI P1_s2_accounts step inv s2_advance)
qed

subsection \<open>Traces of the trade manager\<close>

lemma extends_refl: "extends_within A tm tm"
  by (simp add: extends_within_def)

lemma extends_trans:
  "extends_within A tm tm1 \<Longrightarrow> extends_within A tm1 tm2 \<Longrightarrow> extends_within A tm tm2"
  by (auto simp: extends_within_def)

lemma extends_record: "ev \<in> A \<Longrightarrow> extends_within A tm (record_event ev tm)"
  by (simp add: extends_within_def record_event_def)

lemma extends_record_then:
  "ev \<in> A \<Longrightarrow> extends_within A (record_event ev tm) tm' \<Longrightarrow> extends_within A tm tm'"
  by (blast intro: extends_trans extends_record)

lemma extends_fields:
  "extends_within A tm tm' \<Longrightarrow> extends_within A tm (tm'\<lparr>positionLocks := l\<rparr>)"
  "extends_within A tm tm' \<Longrightarrow> extends_within A tm (tm'\<lparr>exchangeInfo := i\<rparr>)"
  "extends_within A (tm\<lparr>positionLocks := l\<rparr>) tm' \<Longrightarrow> extends_within A tm tm'"
  by (simp_all add: extends_within_def)

lemma client_requests_mem:
  "client_requests \<subseteq> A \<Longrightarrow> GetExchangeInfo \<in> A"
  "client_requests \<subseteq> A \<Longrightarrow> GetPositionsV3 s \<in> A"
  "client_requests \<subseteq> A \<Longrightarrow> GetAllOpenOrders s \<in> A"
  "client_requests \<subseteq> A \<Longrightarrow> SubmitMultipleOrders p q \<in> A"
  "client_requests \<subseteq> A \<Longrightarrow> SubmitNewOrder p \<in> A"
  "client_requests \<subseteq> A \<Longrightarrow> CancelAllOpenOrders s \<in> A"
  by (auto simp: client_requests_def client_request_def)

lemma extends_then_record:
  "extends_within A tm tm' \<Longrightarrow> ev \<in> A \<Longrightarrow> extends_within A tm (record_event ev tm')"
  by (auto simp: extends_within_def record_event_def)

lemma extends_via:
  "extends_within A tm1 tm2 \<Longrightarrow> extends_within A tm tm1 \<Longrightarrow> extends_within A tm tm2"
  by (rule extends_trans)

lemmas extends_intros = extends_refl extends_then_record extends_fields(1,2)

lemma getSymbolPrecision_extends:
  assumes "client_requests \<subseteq> A"
    and "getSymbolPrecision ex s tm = (r, tm')"
  shows "extends_within A tm tm'"
  using assms(2) client_requests_mem(1)[OF assms(1)]
  by (auto simp: getSymbolPrecision_def split: option.splits sum.splits prod.splits
      intro!: extends_intros)




lemma cancelAllOrder_extends:
  assumes "client_requests \<subseteq> A"
    and "cancelAllOrder ex s tm = (r, tm')"
  shows "extends_within A tm tm'"
  using assms(2) client_requests_mem(6)[OF assms(1)]
  by (auto simp: cancelAllOrder_def Let_def split: sum.splits intro!: extends_intros)

lemma placeTrailStopLoss_extends:
  assumes "client_requests \<subseteq> A"
    and "placeTrailStopLoss ex s side sp tm = (r, tm')"
  shows "extends_within A (record_event (PlaceTrailStopLoss s side sp) tm) tm'"
  using assms(2) client_requests_mem[OF assms(1)]
  by (auto simp: placeTrailStopLoss_def Let_def
      split: sum.splits option.splits prod.splits if_splits
      dest!: getSymbolPrecision_extends[OF assms(1)] cancelAllOrder_extends[OF assms(1)]
      elim!: extends_via intro!: extends_intros)



subsection \<open>Entry engine\<close>




lemma checkMovementThreshold_armed:
  assumes "getPositionData ad a s = Some p" and "\<not> status p"
    and "lock_close_price p = Some L" and "movement_threshold p = Some m"
    and "L \<noteq> 0" and "m \<noteq> 0" and "pairSettings s = Some ps"
  shows "checkMovementThreshold ex pairSettings a s price ad tm =
     (if price \<ge> L * (1 + m / 100) then
        (case placePositionWithStopLoss ex s BUY (usdt_amount ps) (price * (1 - m / 100)) tm of
           (Inl e, tm') \<Rightarrow> (Inl e, ad, tm')
         | (Inr response, tm') \<Rightarrow>
             (Inr (), after_entry pairSettings a s price Long response ad, tm'))
      else if price \<le> L * (1 - m / 100) then
        (case placePositionWithStopLoss ex s SELL (usdt_amount ps) (price * (1 + m / 100)) tm of
           (Inl e, tm') \<Rightarrow> (Inl e, ad, tm')
         | (Inr response, tm') \<Rightarrow>
             (Inr (), after_entry pairSettings a s price Short response ad, tm'))
      else (Inr (), ad, tm))"
  using assms by (simp add: checkMovementThreshold_def truthy_def Let_def)

lemma snd_snd_case:
  "snd (snd (case x of (Inl e, tm') \<Rightarrow> (Inl e, ad, tm') | (Inr r, tm') \<Rightarrow> (Inr (), f r, tm'))) = snd x"
  by (cases x) (auto split: sum.splits)


lemma s7_facts:
  "getPositionData s7_accounts ''A'' ''XRPUSDT'' = Some s7_position"
  "\<not> status s7_position"
  "lock_close_price s7_position = Some 100" "movement_threshold s7_position = Some 2"
  "s7_settings ''XRPUSDT'' = Some s7_pair" "usdt_amount s7_pair = 1000"
  by (simp_all add: s7_accounts_def getPositionData_def getAccountData_def s7_position_def
      idle_position_def s7_settings_def s7_pair_def)

lemma s7_place:
  "trace (snd (placePositionWithStopLoss s7_exchange ''XRPUSDT'' BUY 1000 99.96 s7_tm)) =
   [PlacePositionWithStopLoss ''XRPUSDT'' BUY 1000 99.96, GetExchangeInfo,
    GetPositionsV3 ''XRPUSDT'', GetAllOpenOrders ''XRPUSDT'',
    SubmitMultipleOrders s7_market_order s7_stop_order]"
  by code_simp

lemma s7_run:
  "snd (snd (checkMovementThreshold s7_exchange s7_settings ''A'' ''XRPUSDT'' 102
      s7_accounts s7_tm)) =
   snd (placePositionWithStopLoss s7_exchange ''XRPUSDT'' BUY 1000 99.96 s7_tm)"
proof -
  have "(102::real) * (1 - 2 / 100) = 99.96" by simp
  then show ?thesis
    by (simp add: checkMovementThreshold_armed[where pairSettings = s7_settings
          and s = "''XRPUSDT''", OF s7_facts(1-4) _ _ s7_facts(5)] s7_facts(6)
        split: prod.splits sum.splits)
qed

text \<open>
  Claim C7 at a failing input. The position is armed at 100 with a threshold of 2
  percent, the notional is 1000 and the quantity precision 1. The tick at 102 breaches
  the upper threshold. The quantity of the market order the trade manager submits
  is 9.9: it divides the notional by the stop price over 0.99, a price recovered with
  a fixed one percent, and not by the tick price, which gives 9.8.
\<close>

theorem entry_quantity_fixed_one_percent:
  "getPositionData s7_accounts ''A'' ''XRPUSDT'' = Some s7_position \<and>
   lock_close_price s7_position = Some 100 \<and> movement_threshold s7_position = Some 2 \<and>
   (102::real) \<ge> 100 * (1 + 2 / 100) \<and>
   usdt_amount s7_pair = 1000 \<and>
   trace (snd (snd (checkMovementThreshold s7_exchange s7_settings ''A'' ''XRPUSDT'' 102
      s7_accounts s7_tm))) =
     [PlacePositionWithStopLoss ''XRPUSDT'' BUY 1000 99.96, GetExchangeInfo,
      GetPositionsV3 ''XRPUSDT'', GetAllOpenOrders ''XRPUSDT'',
      SubmitMultipleOrders s7_market_order s7_stop_order] \<and>
   o_quantity s7_market_order = Some 9.9 \<and>
   roundToPrecision (usdt_amount s7_pair / 102) 1 = 9.8"
proof -
  have c: "(102::real) \<ge> 100 * (1 + 2 / 100)" by simp
  have e: "o_quantity s7_market_order = Some 9.9" by (simp add: s7_market_order_def)
  have f: "roundToPrecision (usdt_amount s7_pair / 102) 1 = 9.8"
    by (simp add: s7_facts(6) roundToPrecision_def toFixed_def)
  have t: "trace (snd (snd (checkMovementThreshold s7_exchange s7_settings ''A'' ''XRPUSDT'' 102
      s7_accounts s7_tm))) =
     [PlacePositionWithStopLoss ''XRPUSDT'' BUY 1000 99.96, GetExchangeInfo,
      GetPositionsV3 ''XRPUSDT'', GetAllOpenOrders ''XRPUSDT'',
      SubmitMultipleOrders s7_market_order s7_stop_order]"
    unfolding s7_run by (rule s7_place)
  show ?thesis by (intro conjI s7_facts(1,3,4,6) c t e f)
qed

text \<open>
  The recovered price is the tick price only for a movement threshold of one percent.
\<close>

lemma recovered_price_long:
  fixes price m :: real
  shows "price \<noteq> 0 \<Longrightarrow> (price * (1 - m / 100)) / (1 + - 0.01) = price \<longleftrightarrow> m = 1"
  by (auto simp: field_simps)



subsection \<open>Trigger runner\<close>

text \<open>
  \<^verbatim>\<open>placeTrailStopLoss\<close> answers \<^verbatim>\<open>true\<close> or throws, never \<^verbatim>\<open>false\<close>: the
  retry loop of \<^verbatim>\<open>checkTriggers\<close> therefore ends in its first round.
\<close>

lemma placeTrailStopLoss_never_false:
  "fst (placeTrailStopLoss ex s side sp tm) \<noteq> Inr False"
  by (auto simp: placeTrailStopLoss_def Let_def split: sum.splits prod.splits)

lemma trail_loop_first_attempt:
  "trail_loop ex a s side sp trs sps 0 ad tm =
     (case placeTrailStopLoss ex s side sp tm of
        (Inl e, tm') \<Rightarrow> (Inl e, ad, tm')
      | (Inr placed, tm') \<Rightarrow>
          (case updatePosition a s
                  (no_updates\<lparr>u_triggers := Some (drop 1 trs),
                     u_stop_prices := Some (drop 1 sps)\<rparr>) ad of
             (Inl e, ad') \<Rightarrow> (Inl e, ad', tm')
           | (Inr _, ad') \<Rightarrow> (Inr True, ad', tm')))"
proof (cases "placeTrailStopLoss ex s side sp tm")
  case (Pair r tm')
  show ?thesis
  proof (cases r)
    case (Inl e)
    with Pair show ?thesis by (subst trail_loop.simps) simp
  next
    case (Inr placed)
    with Pair placeTrailStopLoss_never_false[of ex s side sp tm] have "placed" by auto
    with Pair Inr show ?thesis by (subst trail_loop.simps) simp
  qed
qed

lemma trail_events_facts: "client_requests \<subseteq> trail_events"
  by (auto simp: trail_events_def client_requests_def client_request_def is_trail_attempt_def
      is_close_def split: event.splits)

lemma placeTrailStopLoss_events:
  "filter is_trail_attempt (new_events tm (snd (placeTrailStopLoss ex s side sp tm))) =
     [PlaceTrailStopLoss s side sp] \<and>
   filter is_close (new_events tm (snd (placeTrailStopLoss ex s side sp tm))) = []"
proof -
  obtain r tm' where run: "placeTrailStopLoss ex s side sp tm = (r, tm')"
    by (cases "placeTrailStopLoss ex s side sp tm")
  from placeTrailStopLoss_extends[OF trail_events_facts run]
  obtain evs where tr: "trace tm' = trace tm @ PlaceTrailStopLoss s side sp # evs"
    and q: "set evs \<subseteq> trail_events"
    by (auto simp: extends_within_def record_event_def)
  from q have "filter is_trail_attempt evs = []" "filter is_close evs = []"
    by (auto simp: trail_events_def filter_empty_conv)
  with tr run show ?thesis
    by (simp add: new_events_def is_trail_attempt_def is_close_def)
qed

text \<open>
  Claim C3, what the code does instead. On a tick that crosses the first trigger of
  an open position, with the trigger lock free, a placement attempt that fails with an
  exception is the only one: \<^verbatim>\<open>checkTriggers\<close> leaves the ladder as it was, makes no
  second or third attempt and does not close the position. The witness is an exchange
  that fails once and would accept the very next attempt.
\<close>

theorem checkTriggers_failed_placement:
  assumes "getPositionData ad a s = Some p" and "status p"
    and "triggers p = t0 # ts" and "stop_prices p = s0 # ss"
    and "\<not> pt (a @ ''-'' @ s)"
    and "if trigger_side p = Some Long then price \<ge> t0 else price \<le> t0"
    and "fst (placeTrailStopLoss ex s (if trigger_side p = Some Long then BUY else SELL) s0 tm)
           = Inl e"
  shows "checkTriggers ex a s price ad tm pt =
           (ad,
            snd (placeTrailStopLoss ex s (if trigger_side p = Some Long then BUY else SELL) s0 tm),
            pt(a @ ''-'' @ s := False)) \<and>
         filter is_trail_attempt (new_events tm (fst (snd (checkTriggers ex a s price ad tm pt)))) =
           [PlaceTrailStopLoss s (if trigger_side p = Some Long then BUY else SELL) s0] \<and>
         filter is_close (new_events tm (fst (snd (checkTriggers ex a s price ad tm pt)))) = []"
proof -
  let ?side = "if trigger_side p = Some Long then BUY else SELL"
  obtain r tm' where run: "placeTrailStopLoss ex s ?side s0 tm = (r, tm')"
    by (cases "placeTrailStopLoss ex s ?side s0 tm")
  with assms(7) have r: "r = Inl e" by simp
  have loop: "trail_loop ex a s ?side s0 (t0 # ts) (s0 # ss) 0 ad tm = (Inl e, ad, tm')"
    by (simp add: trail_loop_first_attempt run r)
  have eq: "checkTriggers ex a s price ad tm pt = (ad, tm', pt(a @ ''-'' @ s := False))"
    using assms(1-6) loop
    by (simp add: checkTriggers_def Let_def list_head_def)
  show ?thesis
    using placeTrailStopLoss_events[of tm ex s ?side s0] run
    by (simp add: eq)
qed

lemma s3_facts:
  "status s2_open_position" "triggers s2_open_position = [99.99, 100.485]"
  "stop_prices s2_open_position = [98.5149, 99.017326]"
  "trigger_side s2_open_position = Some Long"
  "\<not> no_locks (''A'' @ ''-'' @ ''XRPUSDT'')"
  by (simp_all add: s2_open_position_def no_locks_def)

lemma s3_first_attempt:
  "placeTrailStopLoss s3_exchange ''XRPUSDT'' BUY 98.5149 s7_tm =
     (Inl Transport,
      s7_tm\<lparr>trace := [PlaceTrailStopLoss ''XRPUSDT'' BUY 98.5149, GetAllOpenOrders ''XRPUSDT'']\<rparr>)"
  by (simp add: placeTrailStopLoss_def Let_def record_event_def now_def s3_exchange_def
      s7_tm_def s7_client_def)

lemma s3_second_attempt:
  "fst (placeTrailStopLoss s3_exchange ''XRPUSDT'' BUY 98.5149
         (s7_tm\<lparr>trace := [PlaceTrailStopLoss ''XRPUSDT'' BUY 98.5149,
                            GetAllOpenOrders ''XRPUSDT'']\<rparr>)) = Inr True"
  by code_simp

theorem checkTriggers_failed_placement_witness:
  "getPositionData s2_accounts ''A'' ''XRPUSDT'' = Some s2_open_position \<and>
   status s2_open_position \<and>
   triggers s2_open_position = [99.99, 100.485] \<and>
   stop_prices s2_open_position = [98.5149, 99.017326] \<and>
   trigger_side s2_open_position = Some Long \<and> (100::real) \<ge> 99.99 \<and>
   fst (placeTrailStopLoss s3_exchange ''XRPUSDT'' BUY 98.5149 s7_tm) = Inl Transport \<and>
   fst (checkTriggers s3_exchange ''A'' ''XRPUSDT'' 100 s2_accounts s7_tm no_locks) = s2_accounts \<and>
   trace (fst (snd (checkTriggers s3_exchange ''A'' ''XRPUSDT'' 100 s2_accounts s7_tm no_locks))) =
     [PlaceTrailStopLoss ''XRPUSDT'' BUY 98.5149, GetAllOpenOrders ''XRPUSDT''] \<and>
   fst (placeTrailStopLoss s3_exchange ''XRPUSDT'' BUY 98.5149
         (fst (snd (checkTriggers s3_exchange ''A'' ''XRPUSDT'' 100 s2_accounts s7_tm no_locks))))
     = Inr True"
proof -
  have c: "if trigger_side s2_open_position = Some Long then (100::real) \<ge> 99.99
           else (100::real) \<le> 99.99"
    by (simp add: s3_facts)
  have f: "fst (placeTrailStopLoss s3_exchange ''XRPUSDT''
                 (if trigger_side s2_open_position = Some Long then BUY else SELL) 98.5149 s7_tm)
           = Inl Transport"
    using s3_first_attempt by (simp add: s3_facts)
  from checkTriggers_failed_placement[where pt = no_locks and ex = s3_exchange and tm = s7_tm,
      OF s2_positions(1) s3_facts(1,2,3,5) c f]
  have run: "checkTriggers s3_exchange ''A'' ''XRPUSDT'' 100 s2_accounts s7_tm no_locks =
      (s2_accounts,
       s7_tm\<lparr>trace := [PlaceTrailStopLoss ''XRPUSDT'' BUY 98.5149, GetAllOpenOrders ''XRPUSDT'']\<rparr>,
       no_locks(''A'' @ ''-'' @ ''XRPUSDT'' := False))"
    using s3_first_attempt by (simp add: s3_facts)
  have p: "(100::real) \<ge> 99.99" by simp
  have f': "fst (placeTrailStopLoss s3_exchange ''XRPUSDT'' BUY 98.5149 s7_tm) = Inl Transport"
    using s3_first_attempt by simp
  have a: "fst (checkTriggers s3_exchange ''A'' ''XRPUSDT'' 100 s2_accounts s7_tm no_locks) =
      s2_accounts"
    by (simp add: run)
  have t: "trace (fst (snd (checkTriggers s3_exchange ''A'' ''XRPUSDT'' 100 s2_accounts s7_tm
      no_locks))) = [PlaceTrailStopLoss ''XRPUSDT'' BUY 98.5149, GetAllOpenOrders ''XRPUSDT'']"
    by (simp add: run)
  have n: "fst (placeTrailStopLoss s3_exchange ''XRPUSDT'' BUY 98.5149
         (fst (snd (checkTriggers s3_exchange ''A'' ''XRPUSDT'' 100 s2_accounts s7_tm no_locks))))
     = Inr True"
    using s3_second_attempt by (simp add: run)
  show ?thesis
    by (intro conjI s2_positions(1) s3_facts(1-4) p f' a t n)
qed

text \<open>
  The part of the claim that holds (P6): the ladder only changes when a placement
  succeeded.
\<close>

lemma ladder_advance_needs_placement:
  assumes "fst (checkTriggers ex a s price ad tm pt) \<noteq> ad"
  shows "\<exists>side sp. fst (placeTrailStopLoss ex s side sp tm) = Inr True"
proof (rule ccontr)
  assume no: "\<not> (\<exists>side sp. fst (placeTrailStopLoss ex s side sp tm) = Inr True)"
  have "fst (snd (trail_loop ex a s side sp trs sps 0 ad tm)) = ad" for side sp trs sps
  proof (cases "placeTrailStopLoss ex s side sp tm")
    case (Pair r tm')
    from no have "fst (placeTrailStopLoss ex s side sp tm) \<noteq> Inr True" by blast
    with Pair placeTrailStopLoss_never_false[of ex s side sp tm]
    have "r \<noteq> Inr True" and "r \<noteq> Inr False" by simp_all
    then obtain e where "r = Inl e"
      by (cases r) auto
    with Pair show ?thesis by (simp add: trail_loop_first_attempt)
  qed
  then have key: "\<And>side sp trs sps r ad' tm'.
      trail_loop ex a s side sp trs sps 0 ad tm = (r, ad', tm') \<Longrightarrow> ad' = ad"
    by (metis fst_conv snd_conv)
  have "fst (checkTriggers ex a s price ad tm pt) = ad"
    by (auto simp: checkTriggers_def Let_def dest!: key
        split: option.splits list.splits prod.splits sum.splits bool.splits)
  with assms show False by simp
qed

end
